theory Spec2Isabelle
  imports Main
begin

section \<open>Python strings and formatting\<close>

text \<open>
  \<open>str(n)\<close> for a natural number and for an integer, and the format specification
  \<open>:02d\<close> (sign-aware zero padding to width two), as the f-strings of the source use them.
\<close>

fun str_nat :: "nat \<Rightarrow> string" where
  "str_nat n = (if n < 10 then [''0123456789'' ! n]
                else str_nat (n div 10) @ [''0123456789'' ! (n mod 10)])"

declare str_nat.simps [simp del]

definition str_int :: "int \<Rightarrow> string" where
  "str_int i = (if i < 0 then CHR ''-'' # str_nat (nat (- i)) else str_nat (nat i))"

definition format_02d :: "int \<Rightarrow> string" where
  "format_02d i = (let s = str_int i in if length s < 2 then CHR ''0'' # s else s)"

text \<open>\<open>str.lower()\<close> on ASCII letters, and the substring test \<open>needle in haystack\<close>.\<close>

definition lower_char :: "char \<Rightarrow> char" where
  "lower_char c =
     (if c = CHR ''A'' then CHR ''a'' else if c = CHR ''B'' then CHR ''b''
      else if c = CHR ''C'' then CHR ''c'' else if c = CHR ''D'' then CHR ''d''
      else if c = CHR ''E'' then CHR ''e'' else if c = CHR ''F'' then CHR ''f''
      else if c = CHR ''G'' then CHR ''g'' else if c = CHR ''H'' then CHR ''h''
      else if c = CHR ''I'' then CHR ''i'' else if c = CHR ''J'' then CHR ''j''
      else if c = CHR ''K'' then CHR ''k'' else if c = CHR ''L'' then CHR ''l''
      else if c = CHR ''M'' then CHR ''m'' else if c = CHR ''N'' then CHR ''n''
      else if c = CHR ''O'' then CHR ''o'' else if c = CHR ''P'' then CHR ''p''
      else if c = CHR ''Q'' then CHR ''q'' else if c = CHR ''R'' then CHR ''r''
      else if c = CHR ''S'' then CHR ''s'' else if c = CHR ''T'' then CHR ''t''
      else if c = CHR ''U'' then CHR ''u'' else if c = CHR ''V'' then CHR ''v''
      else if c = CHR ''W'' then CHR ''w'' else if c = CHR ''X'' then CHR ''x''
      else if c = CHR ''Y'' then CHR ''y'' else if c = CHR ''Z'' then CHR ''z''
      else c)"

definition lower :: "string \<Rightarrow> string" where
  "lower s = map lower_char s"

fun startswith :: "string \<Rightarrow> string \<Rightarrow> bool" where
  "startswith [] hay = True"
| "startswith (c # cs) [] = False"
| "startswith (c # cs) (h # hay) = (c = h \<and> startswith cs hay)"

fun py_in :: "string \<Rightarrow> string \<Rightarrow> bool" where
  "py_in needle [] = (needle = [])"
| "py_in needle (h # hay) = (startswith needle (h # hay) \<or> py_in needle hay)"

text \<open>
  \<open>str.strip()\<close>: leading and trailing whitespace removed. A character is its code
  point, up to 255; among these \<open>str.isspace()\<close> holds for the ten ASCII ones and for
  U+0085 and U+00A0.
\<close>

definition isspace :: "char \<Rightarrow> bool" where
  "isspace c = (c \<in> set [CHR '' '', CHR 0x09, CHR 0x0A, CHR 0x0B, CHR 0x0C, CHR 0x0D,
                          CHR 0x1C, CHR 0x1D, CHR 0x1E, CHR 0x1F, CHR 0x85, CHR 0xA0])"

definition strip :: "string \<Rightarrow> string" where
  "strip s = rev (dropWhile isspace (rev (dropWhile isspace s)))"

section \<open>Duration formatting\<close>

text \<open>
  \<open>_format_duration(seconds: int)\<close>. Python's \<open>//\<close> and \<open>%\<close> round towards minus
  infinity, as \<open>div\<close> and \<open>mod\<close> on \<open>int\<close> do. \<open>not seconds\<close> and \<open>if hours\<close> test
  for zero.
\<close>

definition format_duration :: "int \<Rightarrow> string" where
  "format_duration seconds =
     (if seconds = 0 then ''0:00''
      else let hours = seconds div 3600;
               minutes = (seconds mod 3600) div 60;
               seconds = seconds mod 60
           in if hours \<noteq> 0
              then str_int hours @ '':'' @ format_02d minutes @ '':'' @ format_02d seconds
              else str_int minutes @ '':'' @ format_02d seconds)"

section \<open>Data model\<close>

text \<open>The dataclass \<open>VideoInfo\<close>; \<open>thumbnail\<close> defaults to the empty string and
  \<open>selected\<close> to \<open>False\<close> at every construction site of the source.\<close>

record VideoInfo =
  video_id :: string
  title :: string
  duration :: string
  uploader :: string
  url :: string
  thumbnail :: string
  selected :: bool

text \<open>The pairs put on \<open>message_queue\<close>: \<open>("status", text)\<close>, \<open>("progress", text)\<close>
  and \<open>("videos", list)\<close>.\<close>

datatype message = Status string | Progress string | Videos "VideoInfo list"

text \<open>
  The dictionaries returned by the extraction library, restricted to the keys the source
  reads. The value of \<open>duration\<close> is a number as JSON has it, an integer or a float; a
  finite float is written with its mantissa and binary exponent (\<open>65.0\<close> is
  \<open>PyFloat 65 0\<close>). \<open>None\<close> stands for a key that is absent or whose value is Python's
  \<open>None\<close>: the chains \<open>d.get(k) or rest\<close> treat the two alike, and so does every use of
  \<open>duration\<close> (\<open>_format_duration(None)\<close> is \<open>0:00\<close>, as for the default \<open>0\<close>). The
  results of \<open>d.get(k, default)\<close> on the textual keys are stored in fields that the
  dataclass declares \<open>str\<close>, so that such a key, when present, holds a string. The
  top-level dictionary has the additional key \<open>entries\<close>, whose list may contain
  \<open>None\<close> in place of an entry.
\<close>

datatype number = PyInt int | PyFloat int int

record entry =
  k_id :: "string option"
  k_title :: "string option"
  k_duration :: "number option"
  k_uploader :: "string option"
  k_channel :: "string option"
  k_url :: "string option"
  k_webpage_url :: "string option"
  k_thumbnail :: "string option"

record info = entry +
  k_entries :: "entry option list option"

text \<open>\<open>d.get(k, default)\<close> and the chains \<open>d.get(k) or rest\<close>, where the empty string
  and the number zero (of either kind) are falsy.\<close>

definition get_or :: "'a option \<Rightarrow> 'a \<Rightarrow> 'a" where
  "get_or v dflt = (case v of None \<Rightarrow> dflt | Some x \<Rightarrow> x)"

definition or_str :: "string option \<Rightarrow> string \<Rightarrow> string" where
  "or_str v rest = (case v of None \<Rightarrow> rest | Some s \<Rightarrow> if s = [] then rest else s)"

definition is_zero :: "number \<Rightarrow> bool" where
  "is_zero x = (case x of PyInt n \<Rightarrow> n = 0 | PyFloat m e \<Rightarrow> m = 0)"

definition or_num :: "number option \<Rightarrow> number \<Rightarrow> number" where
  "or_num v rest = (case v of None \<Rightarrow> rest | Some x \<Rightarrow> if is_zero x then rest else x)"

text \<open>
  \<open>_format_duration\<close> on the number it is called with. On an integer it is
  \<open>format_duration\<close>. On a float, \<open>not seconds\<close> holds for zero only; otherwise
  \<open>//\<close> and \<open>%\<close> give floats and the format specification \<open>:02d\<close> raises
  \<open>ValueError\<close> with the text below (an infinite or undefined float would raise it too).
\<close>

definition float_format_error :: string where
  "float_format_error =
     ''Unknown format code '' @ [CHR 0x27] @ ''d'' @ [CHR 0x27] @ '' for object of type ''
       @ [CHR 0x27] @ ''float'' @ [CHR 0x27]"

definition format_duration_of :: "number \<Rightarrow> string + string" where
  "format_duration_of x =
     (case x of
        PyInt n \<Rightarrow> Inr (format_duration n)
      | PyFloat m e \<Rightarrow> if m = 0 then Inr ''0:00'' else Inl float_format_error)"

text \<open>
  The external library. The four option sets of the source are told apart by \<open>opts\<close>.
  Constructing \<open>yt_dlp.YoutubeDL(opts)\<close> may raise (\<open>Some\<close> of the exception text), and so
  may \<open>extract_info(url, download=False)\<close> (\<open>Inl\<close> of the text) and \<open>download([url])\<close>.
  With the option sets of the source, which do not ask the library to ignore errors,
  \<open>extract_info\<close> returns a dictionary or raises.
\<close>

datatype opts = Basic | Single | Detailed | Download_opts

record env =
  YoutubeDL :: "opts \<Rightarrow> string option"
  extract_info :: "opts \<Rightarrow> string \<Rightarrow> string + info"
  download :: "string \<Rightarrow> string option"

section \<open>The fetch worker\<close>

text \<open>The detailed extraction inside \<open>try: ... except:\<close>; \<open>None\<close> when the block raised.\<close>

definition extract_detail :: "env \<Rightarrow> opts \<Rightarrow> string \<Rightarrow> info option" where
  "extract_detail env ydl_opts u =
     (case YoutubeDL env ydl_opts of
        Some e \<Rightarrow> None
      | None \<Rightarrow> (case extract_info env ydl_opts u of Inl e \<Rightarrow> None | Inr i \<Rightarrow> Some i))"

text \<open>
  The body of the playlist loop for the entry at index \<open>i\<close> (from zero), in its parts.
  \<open>detailed_fields\<close> is the inner \<open>try\<close> block, which computes the title, the duration
  and the uploader: \<open>None\<close> when the extraction or \<open>_format_duration\<close> raised there.
  \<open>fallback_fields\<close> is its bare \<open>except\<close> block: an exception of \<open>_format_duration\<close>
  there leaves the block (\<open>Inl\<close> of its text).
\<close>

definition entry_id :: "nat \<Rightarrow> entry \<Rightarrow> string" where
  "entry_id i e = get_or (k_id e) (''unknown_'' @ str_nat i)"

definition entry_url :: "nat \<Rightarrow> entry \<Rightarrow> string" where
  "entry_url i e =
     or_str (k_url e) (or_str (k_webpage_url e)
       (''https://www.youtube.com/watch?v='' @ entry_id i e))"

definition detailed_fields :: "env \<Rightarrow> nat \<Rightarrow> entry \<Rightarrow> (string \<times> string \<times> string) option" where
  "detailed_fields env i e =
     (case extract_detail env Single (entry_url i e) of
        None \<Rightarrow> None
      | Some single_info \<Rightarrow>
          (case format_duration_of
                  (or_num (k_duration single_info) (or_num (k_duration e) (PyInt 0))) of
             Inl err \<Rightarrow> None
           | Inr d \<Rightarrow>
               Some (or_str (k_title single_info)
                       (or_str (k_title e) (''Video '' @ str_nat (i + 1))),
                     d,
                     or_str (k_uploader single_info) (or_str (k_channel single_info)
                       (or_str (k_uploader e) ''Unknown Channel'')))))"

definition fallback_fields :: "nat \<Rightarrow> entry \<Rightarrow> string + string \<times> string \<times> string" where
  "fallback_fields i e =
     (case format_duration_of (or_num (k_duration e) (PyInt 0)) of
        Inl err \<Rightarrow> Inl err
      | Inr d \<Rightarrow>
          Inr (or_str (k_title e) (''Video '' @ str_nat (i + 1)),
               d,
               or_str (k_uploader e) ''Unknown Channel''))"

text \<open>
  The whole body: the descriptor appended to \<open>videos\<close>, or the text of the exception
  that reaches the handler \<open>except Exception as e\<close> of the loop body.
\<close>

definition playlist_item :: "env \<Rightarrow> nat \<Rightarrow> entry \<Rightarrow> string + VideoInfo" where
  "playlist_item env i e =
     (case (case detailed_fields env i e of
              Some found \<Rightarrow> Inr found
            | None \<Rightarrow> fallback_fields i e) of
        Inl err \<Rightarrow> Inl err
      | Inr (t, d, up) \<Rightarrow>
          Inr \<lparr>video_id = entry_id i e, title = t, duration = d, uploader = up,
               url = entry_url i e, thumbnail = get_or (k_thumbnail e) [],
               selected = False\<rparr>)"

text \<open>
  \<open>for i, entry in enumerate(entries)\<close>, returning the messages put and the list
  \<open>videos\<close> built. The handler of the loop body prints the exception and continues with
  the next entry: an entry whose body raised appends nothing.
\<close>

fun process_entries :: "env \<Rightarrow> nat \<Rightarrow> nat \<Rightarrow> entry list \<Rightarrow> message list \<times> VideoInfo list" where
  "process_entries env i n [] = ([], [])"
| "process_entries env i n (e # es) =
     (let (msgs, vs) = process_entries env (i + 1) n es
      in (Status (''Processing video '' @ str_nat (i + 1) @ ''/'' @ str_nat n @ ''...'') # msgs,
          (case playlist_item env i e of Inl err \<Rightarrow> vs | Inr v \<Rightarrow> v # vs)))"

text \<open>\<open>[e for e in info['entries'] if e is not None][:20]\<close>\<close>

definition limit_entries :: "entry option list \<Rightarrow> entry list" where
  "limit_entries es = take 20 (map the (filter (\<lambda>e. e \<noteq> None) es))"

text \<open>
  The single-video branch. \<open>single_detailed\<close> is its \<open>try\<close> block, which builds and
  appends the descriptor: \<open>None\<close> when the extraction or \<open>_format_duration\<close> raised.
  \<open>single_fallback\<close> is its bare \<open>except\<close> block; an exception of \<open>_format_duration\<close>
  there reaches the outer handler of the function.
\<close>

definition single_detailed :: "env \<Rightarrow> string \<Rightarrow> info \<Rightarrow> VideoInfo option" where
  "single_detailed env u info =
     (case extract_detail env Detailed u of
        None \<Rightarrow> None
      | Some detailed_info \<Rightarrow>
          (case format_duration_of
                  (or_num (k_duration detailed_info) (or_num (k_duration info) (PyInt 0))) of
             Inl err \<Rightarrow> None
           | Inr d \<Rightarrow>
               Some \<lparr>video_id = get_or (k_id detailed_info) (get_or (k_id info) ''unknown''),
                     title = or_str (k_title detailed_info)
                               (or_str (k_title info) ''Untitled Video''),
                     duration = d,
                     uploader = or_str (k_uploader detailed_info)
                                  (or_str (k_channel detailed_info)
                                     (or_str (k_uploader info) ''Unknown Channel'')),
                     url = u,
                     thumbnail = get_or (k_thumbnail detailed_info)
                                   (get_or (k_thumbnail info) []),
                     selected = False\<rparr>))"

definition single_fallback :: "string \<Rightarrow> info \<Rightarrow> string + VideoInfo" where
  "single_fallback u info =
     (case format_duration_of (get_or (k_duration info) (PyInt 0)) of
        Inl err \<Rightarrow> Inl err
      | Inr d \<Rightarrow>
          Inr \<lparr>video_id = get_or (k_id info) ''unknown'',
               title = get_or (k_title info) ''Untitled Video'',
               duration = d,
               uploader = get_or (k_uploader info) ''Unknown Channel'',
               url = u,
               thumbnail = get_or (k_thumbnail info) [],
               selected = False\<rparr>)"

definition single_video :: "env \<Rightarrow> string \<Rightarrow> info \<Rightarrow> string + VideoInfo" where
  "single_video env u info =
     (case single_detailed env u info of
        Some v \<Rightarrow> Inr v
      | None \<Rightarrow> single_fallback u info)"

text \<open>\<open>'entries' in info and info['entries']\<close>\<close>

definition is_playlist :: "info \<Rightarrow> bool" where
  "is_playlist info = (case k_entries info of None \<Rightarrow> False | Some es \<Rightarrow> es \<noteq> [])"

text \<open>
  What happens once the shallow extraction has returned: the messages put, and the list
  \<open>videos\<close> built or the text of the exception that reaches the outer handler.
\<close>

definition collect_videos :: "env \<Rightarrow> string \<Rightarrow> info
    \<Rightarrow> message list \<times> (string + VideoInfo list)" where
  "collect_videos env u info =
     (if is_playlist info
      then let entries = limit_entries (the (k_entries info));
               (msgs, vs) = process_entries env 0 (length entries) entries
           in (Status (''Found playlist with '' @ str_nat (length entries)
                        @ '' videos. Getting details...'') # msgs, Inr vs)
      else ([Status ''Getting video details...''],
            (case single_video env u info of Inl err \<Rightarrow> Inl err | Inr v \<Rightarrow> Inr [v])))"

text \<open>The outer handler: classification of the exception text by substring.\<close>

definition classify :: "string \<Rightarrow> string" where
  "classify error_msg =
     (if py_in ''timeout'' (lower error_msg)
      then ''Error: Request timed out. Check your internet connection.''
      else if py_in ''unavailable'' (lower error_msg)
      then ''Error: Video is unavailable or private''
      else if py_in ''not found'' (lower error_msg)
      then ''Error: Video or playlist not found''
      else ''Error: '' @ error_msg)"

text \<open>
  \<open>fetch_video_info(url)\<close>: the messages put on the queue, in order. An exception of
  the constructor at the \<open>with\<close> statement, or one that leaves the single-video branch,
  reaches the outer handler; an exception of the shallow \<open>extract_info\<close> is caught by the
  inner handler, which returns.
\<close>

definition fetch_video_info :: "env \<Rightarrow> string \<Rightarrow> message list" where
  "fetch_video_info env u =
     Status ''Fetching video information...'' #
     (case YoutubeDL env Basic of
        Some e \<Rightarrow> [Status (classify e)]
      | None \<Rightarrow>
          (case extract_info env Basic u of
             Inl e \<Rightarrow> [Status (''Error fetching basic info: '' @ e)]
           | Inr info \<Rightarrow>
               (case collect_videos env u info of
                  (msgs, Inl err) \<Rightarrow> msgs @ [Status (classify err)]
                | (msgs, Inr vs) \<Rightarrow>
                    msgs @ [Videos vs,
                      Status (''Successfully loaded '' @ str_nat (length vs) @ '' video(s)'')])))"

text \<open>The lists carried by the \<open>videos\<close> messages of a message sequence, and its
  status texts.\<close>

fun results :: "message list \<Rightarrow> VideoInfo list list" where
  "results [] = []"
| "results (Videos vs # ms) = vs # results ms"
| "results (m # ms) = results ms"

fun statuses :: "message list \<Rightarrow> string list" where
  "statuses [] = []"
| "statuses (Status t # ms) = t # statuses ms"
| "statuses (m # ms) = statuses ms"

fun progresses :: "message list \<Rightarrow> string list" where
  "progresses [] = []"
| "progresses (Progress t # ms) = t # progresses ms"
| "progresses (m # ms) = progresses ms"

section \<open>The download worker\<close>

text \<open>
  A worker is a program over the state it shares with the main loop: it puts a message on
  the queue, reads the \<open>threading.Event\<close> \<open>cancel_download\<close>, reads the list it was
  started with (the list object is shared with the main loop, which flips \<open>selected\<close> in
  place), or runs one blocking download, which returns or raises.
\<close>

datatype proc =
    Return
  | Put message proc
  | Is_set "bool \<Rightarrow> proc"
  | Get_list nat "VideoInfo list \<Rightarrow> proc"
  | Ydl_download VideoInfo "string option \<Rightarrow> proc"

text \<open>
  The progress line \<open>f"Downloading {i+1}/{total_videos}: {video.title[:50]}..."\<close>, and
  \<open>for i, video in enumerate(selected_videos)\<close> with the two statements after the loop.
  The only statement of the loop that raises is the \<open>with\<close> block of the download; the
  handler \<open>except Exception as e\<close> of the function is its \<open>Some e\<close> branch.
\<close>

definition progress_line :: "nat \<Rightarrow> nat \<Rightarrow> VideoInfo \<Rightarrow> string" where
  "progress_line i total_videos video =
     ''Downloading '' @ str_nat (i + 1) @ ''/'' @ str_nat total_videos @ '': ''
       @ take 50 (title video) @ ''...''"

fun download_loop :: "nat \<Rightarrow> nat \<Rightarrow> VideoInfo list \<Rightarrow> proc" where
  "download_loop i total_videos [] =
     Put (Status (''Successfully downloaded '' @ str_nat total_videos @ '' video(s)''))
       (Put (Progress []) Return)"
| "download_loop i total_videos (video # rest) =
     Is_set (\<lambda>cancelled.
       if cancelled then Put (Status ''Download cancelled'') Return
       else Put (Progress (progress_line i total_videos video))
              (Ydl_download video (\<lambda>raised.
                 case raised of
                   None \<Rightarrow> download_loop (i + 1) total_videos rest
                 | Some e \<Rightarrow> Put (Status (''Download error: '' @ e))
                              (Put (Progress []) Return))))"

definition download_videos :: "VideoInfo list \<Rightarrow> proc" where
  "download_videos vs =
     (let selected_videos = filter selected vs
      in if selected_videos = [] then Put (Status ''No videos selected'') Return
         else Put (Status (''Downloading '' @ str_nat (length selected_videos) @ '' video(s)...''))
                (download_loop 0 (length selected_videos) selected_videos))"

text \<open>The \<open>with yt_dlp.YoutubeDL(ydl_opts) as ydl: ydl.download([video.url])\<close> block:
  \<open>None\<close> when it returns, the exception text when it raises.\<close>

definition ydl_download :: "env \<Rightarrow> VideoInfo \<Rightarrow> string option" where
  "ydl_download env video =
     (case YoutubeDL env Download_opts of
        Some e \<Rightarrow> Some e
      | None \<Rightarrow> download env (url video))"

text \<open>
  A worker run on its own, to its end: the messages it puts and the videos it has
  downloaded, in order. \<open>flags n\<close> is what the \<open>n\<close>-th call of \<open>is_set()\<close> returns (from
  zero) and \<open>vs\<close> is the content of the list when the worker reads it.
\<close>

primrec exec :: "env \<Rightarrow> VideoInfo list \<Rightarrow> proc \<Rightarrow> (nat \<Rightarrow> bool) \<Rightarrow> nat
                   \<Rightarrow> message list \<times> VideoInfo list" where
  "exec env vs Return = (\<lambda>flags n. ([], []))"
| "exec env vs (Put m p) =
     (\<lambda>flags n. let (msgs, got) = exec env vs p flags n in (m # msgs, got))"
| "exec env vs (Is_set k) = (\<lambda>flags n. exec env vs (k (flags n)) flags (n + 1))"
| "exec env vs (Get_list a k) = (\<lambda>flags n. exec env vs (k vs) flags n)"
| "exec env vs (Ydl_download video k) =
     (\<lambda>flags n. let (msgs, got) = exec env vs (k (ydl_download env video)) flags n
                in (msgs, if ydl_download env video = None then video # got else got))"

section \<open>The main loop\<close>

text \<open>\<open>pygame.Rect(x, y, width, height).collidepoint\<close>: the right and bottom edges are
  outside.\<close>

type_synonym rect = "int \<times> int \<times> int \<times> int"

definition collidepoint :: "rect \<Rightarrow> int \<times> int \<Rightarrow> bool" where
  "collidepoint r p =
     (case r of (x, y, w, h) \<Rightarrow> x \<le> fst p \<and> fst p < x + w \<and> y \<le> snd p \<and> snd p < y + h)"

text \<open>The events of \<open>pygame.event.get()\<close> that the buttons tell apart.\<close>

datatype event = QUIT | MOUSEMOTION "int \<times> int" | MOUSEBUTTONDOWN "int \<times> int"
  | MOUSEBUTTONUP "int \<times> int" | OTHER

text \<open>The mutable fields of a \<open>Button\<close>; its \<open>rect\<close> is fixed when it is constructed.\<close>

record Button =
  pressed :: bool
  enabled :: bool
  hovered :: bool

definition fetch_rect :: rect where "fetch_rect = (670, 50, 100, 40)"

definition download_rect :: rect where "download_rect = (780, 50, 100, 40)"

definition cancel_rect :: rect where "cancel_rect = (890, 50, 100, 40)"

text \<open>\<open>Button.handle_event\<close>: the button after the event, and whether it was clicked.\<close>

definition Button_handle_event :: "rect \<Rightarrow> Button \<Rightarrow> event \<Rightarrow> Button \<times> bool" where
  "Button_handle_event r b ev =
     (if \<not> enabled b then (b, False)
      else case ev of
             MOUSEMOTION p \<Rightarrow> (b\<lparr>hovered := collidepoint r p\<rparr>, False)
           | MOUSEBUTTONDOWN p \<Rightarrow> (if collidepoint r p then b\<lparr>pressed := True\<rparr> else b, False)
           | MOUSEBUTTONUP p \<Rightarrow>
               (if pressed b \<and> collidepoint r p then (b\<lparr>pressed := False\<rparr>, True)
                else (b\<lparr>pressed := False\<rparr>, False))
           | _ \<Rightarrow> (b, False))"

text \<open>
  One event as the loop of \<open>handle_events\<close> sees it: the event itself, the text of the
  input field after \<open>url_input.handle_event(event)\<close>, and the index returned by
  \<open>video_list.handle_event(event)\<close>.
\<close>

record ui_event =
  event :: event
  text_after :: string
  clicked_item :: "nat option"

text \<open>
  Threads. A thread is running its program, is inside a blocking download, or has
  terminated; \<open>is_alive()\<close> holds in the first two states. All threads ever started are
  kept, so that a thread is its index.
\<close>

datatype kind = Fetch_worker | Download_worker

datatype tstate = Running proc | Downloading VideoInfo "string option \<Rightarrow> proc" | Terminated

record thread =
  kind :: kind
  tstate :: tstate

text \<open>
  The fields of \<open>YouTubeDownloader\<close> that the orchestration uses, the list objects
  (\<open>videos\<close> is a reference into \<open>heap\<close>), the threads, and the downloads completed, each
  with the thread that made it.
\<close>

record state =
  running :: bool
  url_text :: string
  fetch_button :: Button
  download_button :: Button
  cancel_button :: Button
  status_text :: string
  progress_text :: string
  videos :: nat
  heap :: "VideoInfo list list"
  fetch_thread :: "nat option"
  download_thread :: "nat option"
  cancel_download :: bool
  message_queue :: "message list"
  threads :: "thread list"
  downloaded :: "(nat \<times> VideoInfo) list"

definition init :: state where
  "init = \<lparr>running = True, url_text = [],
           fetch_button = \<lparr>pressed = False, enabled = True, hovered = False\<rparr>,
           download_button = \<lparr>pressed = False, enabled = True, hovered = False\<rparr>,
           cancel_button = \<lparr>pressed = False, enabled = True, hovered = False\<rparr>,
           status_text = ''Ready'', progress_text = [],
           videos = 0, heap = [[]],
           fetch_thread = None, download_thread = None,
           cancel_download = False, message_queue = [], threads = [], downloaded = []\<rparr>"

text \<open>A reference always names a list object; the guard only makes the read total.\<close>

definition deref :: "state \<Rightarrow> nat \<Rightarrow> VideoInfo list" where
  "deref st a = (if a < length (heap st) then heap st ! a else [])"

text \<open>\<open>t and t.is_alive()\<close> for a thread attribute \<open>t\<close>.\<close>

fun terminated :: "tstate \<Rightarrow> bool" where
  "terminated Terminated = True"
| "terminated ts = False"

definition alive :: "state \<Rightarrow> nat \<Rightarrow> bool" where
  "alive st tid = (tid < length (threads st) \<and> \<not> terminated (tstate (threads st ! tid)))"

definition is_alive :: "state \<Rightarrow> nat option \<Rightarrow> bool" where
  "is_alive st t = (case t of None \<Rightarrow> False | Some tid \<Rightarrow> alive st tid)"

text \<open>\<open>threading.Thread(target=..., daemon=True)\<close> followed by \<open>start()\<close>.\<close>

definition start :: "kind \<Rightarrow> proc \<Rightarrow> state \<Rightarrow> state" where
  "start k p st = st\<lparr>threads := threads st @ [\<lparr>kind = k, tstate = Running p\<rparr>]\<rparr>"

text \<open>The program of a fetch thread: the puts of \<open>fetch_video_info\<close>, one by one.\<close>

definition puts :: "message list \<Rightarrow> proc" where
  "puts msgs = foldr Put msgs Return"

text \<open>
  The handling of the Fetch button for one event. The second component is \<open>True\<close> when the
  source executes \<open>continue\<close>, which skips the rest of the handling of this event.
\<close>

definition on_fetch :: "env \<Rightarrow> event \<Rightarrow> state \<Rightarrow> state \<times> bool" where
  "on_fetch env ev st =
     (let (b, clicked) = Button_handle_event fetch_rect (fetch_button st) ev;
          st = st\<lparr>fetch_button := b\<rparr>
      in if clicked \<and> strip (url_text st) \<noteq> []
         then if is_alive st (fetch_thread st) then (st, True)
              else (start Fetch_worker (puts (fetch_video_info env (strip (url_text st))))
                      (st\<lparr>fetch_thread := Some (length (threads st))\<rparr>), False)
         else (st, False))"

definition on_download :: "event \<Rightarrow> state \<Rightarrow> state" where
  "on_download ev st =
     (let (b, clicked) = Button_handle_event download_rect (download_button st) ev;
          st = st\<lparr>download_button := b\<rparr>
      in if clicked \<and> deref st (videos st) \<noteq> [] \<and> \<not> is_alive st (download_thread st)
         then start Download_worker (Get_list (videos st) download_videos)
                (st\<lparr>cancel_download := False, download_thread := Some (length (threads st))\<rparr>)
         else st)"

definition on_cancel :: "event \<Rightarrow> state \<Rightarrow> state" where
  "on_cancel ev st =
     (let (b, clicked) = Button_handle_event cancel_rect (cancel_button st) ev;
          st = st\<lparr>cancel_button := b\<rparr>
      in if clicked then st\<lparr>cancel_download := True\<rparr> else st)"

text \<open>\<open>self.videos[clicked_item].selected = not self.videos[clicked_item].selected\<close>;
  the list widget only returns an index of the list.\<close>

definition toggle :: "nat \<Rightarrow> VideoInfo list \<Rightarrow> VideoInfo list" where
  "toggle i vs = (if i < length vs then vs[i := (vs ! i)\<lparr>selected := \<not> selected (vs ! i)\<rparr>] else vs)"

definition on_list :: "nat option \<Rightarrow> state \<Rightarrow> state" where
  "on_list c st =
     (case c of
        None \<Rightarrow> st
      | Some i \<Rightarrow> if videos st < length (heap st)
                  then st\<lparr>heap := (heap st)[videos st := toggle i (heap st ! videos st)]\<rparr>
                  else st)"

text \<open>The body of the loop of \<open>handle_events\<close> for one event (the background video
  buttons and the volume slider left out).\<close>

definition handle_event :: "env \<Rightarrow> ui_event \<Rightarrow> state \<Rightarrow> state" where
  "handle_event env e st =
     (let st = (if event e = QUIT then st\<lparr>running := False\<rparr> else st);
          st = st\<lparr>url_text := text_after e\<rparr>;
          (st, continue) = on_fetch env (event e) st
      in if continue then st
         else on_list (clicked_item e) (on_cancel (event e) (on_download (event e) st)))"

text \<open>\<open>update\<close>: the queue is drained in order, then the buttons are enabled or not.\<close>

definition apply_message :: "message \<Rightarrow> state \<Rightarrow> state" where
  "apply_message m st =
     (case m of
        Status t \<Rightarrow> st\<lparr>status_text := t\<rparr>
      | Progress t \<Rightarrow> st\<lparr>progress_text := t\<rparr>
      | Videos vs \<Rightarrow> st\<lparr>videos := length (heap st), heap := heap st @ [vs]\<rparr>)"

definition update :: "state \<Rightarrow> state" where
  "update st =
     (let st = fold apply_message (message_queue st) (st\<lparr>message_queue := []\<rparr>)
      in st\<lparr>fetch_button := (fetch_button st)\<lparr>enabled := strip (url_text st) \<noteq> []\<rparr>,
            download_button := (download_button st)
              \<lparr>enabled := deref st (videos st) \<noteq> [] \<and> \<not> is_alive st (download_thread st)\<rparr>,
            cancel_button := (cancel_button st)\<lparr>enabled := is_alive st (download_thread st)\<rparr>\<rparr>)"

text \<open>One step of a thread.\<close>

definition set_tstate :: "nat \<Rightarrow> tstate \<Rightarrow> state \<Rightarrow> state" where
  "set_tstate tid ts st = st\<lparr>threads := (threads st)[tid := (threads st ! tid)\<lparr>tstate := ts\<rparr>]\<rparr>"

definition thread_step :: "env \<Rightarrow> nat \<Rightarrow> state \<Rightarrow> state" where
  "thread_step env tid st =
     (if tid < length (threads st)
      then case tstate (threads st ! tid) of
             Terminated \<Rightarrow> st
           | Downloading video k \<Rightarrow>
               set_tstate tid (Running (k (ydl_download env video)))
                 (if ydl_download env video = None
                  then st\<lparr>downloaded := downloaded st @ [(tid, video)]\<rparr> else st)
           | Running p \<Rightarrow>
               (case p of
                  Return \<Rightarrow> set_tstate tid Terminated st
                | Put m p' \<Rightarrow>
                    set_tstate tid (Running p') (st\<lparr>message_queue := message_queue st @ [m]\<rparr>)
                | Is_set k \<Rightarrow> set_tstate tid (Running (k (cancel_download st))) st
                | Get_list a k \<Rightarrow> set_tstate tid (Running (k (deref st a))) st
                | Ydl_download video k \<Rightarrow> set_tstate tid (Downloading video k) st)
      else st)"

text \<open>
  The system: the main loop handles an event or runs \<open>update\<close>, or a thread takes a step,
  in any order.
\<close>

datatype action = Handle ui_event | Update | Step nat

fun step :: "env \<Rightarrow> action \<Rightarrow> state \<Rightarrow> state" where
  "step env (Handle e) st = handle_event env e st"
| "step env Update st = update st"
| "step env (Step tid) st = thread_step env tid st"

definition run_actions :: "env \<Rightarrow> action list \<Rightarrow> state \<Rightarrow> state" where
  "run_actions env acts st = fold (step env) acts st"

text \<open>The threads of a kind that are alive, and the downloads made by a thread.\<close>

definition alive_threads :: "kind \<Rightarrow> state \<Rightarrow> nat list" where
  "alive_threads k st =
     filter (\<lambda>tid. kind (threads st ! tid) = k \<and> alive st tid) [0..<length (threads st)]"

definition downloads_of :: "nat \<Rightarrow> state \<Rightarrow> VideoInfo list" where
  "downloads_of tid st = map snd (filter (\<lambda>d. fst d = tid) (downloaded st))"

section \<open>Notions used in the statements\<close>

text \<open>Whether \<open>handle_event\<close> of a button returns \<open>True\<close> for an event.\<close>

definition fetch_clicked :: "state \<Rightarrow> event \<Rightarrow> bool" where
  "fetch_clicked st ev = snd (Button_handle_event fetch_rect (fetch_button st) ev)"

definition download_clicked :: "state \<Rightarrow> event \<Rightarrow> bool" where
  "download_clicked st ev = snd (Button_handle_event download_rect (download_button st) ev)"

definition cancel_clicked :: "state \<Rightarrow> event \<Rightarrow> bool" where
  "cancel_clicked st ev = snd (Button_handle_event cancel_rect (cancel_button st) ev)"

text \<open>The state on which the buttons act, and the conditions under which an event starts
  a thread.\<close>

definition pre_buttons :: "ui_event \<Rightarrow> state \<Rightarrow> state" where
  "pre_buttons e st = (if event e = QUIT then st\<lparr>running := False\<rparr> else st)\<lparr>url_text := text_after e\<rparr>"

definition fetch_spawns :: "ui_event \<Rightarrow> state \<Rightarrow> bool" where
  "fetch_spawns e st = (fetch_clicked st (event e) \<and> strip (text_after e) \<noteq> [] \<and>
                         \<not> is_alive st (fetch_thread st))"

definition download_spawns :: "ui_event \<Rightarrow> state \<Rightarrow> bool" where
  "download_spawns e st = (download_clicked st (event e) \<and> deref st (videos st) \<noteq> [] \<and>
                            \<not> is_alive st (download_thread st))"

text \<open>The invariant of the thread attributes: a thread that is alive is the one its
  attribute refers to.\<close>

definition refs_ok :: "state \<Rightarrow> bool" where
  "refs_ok st =
     (\<forall>tid. alive st tid \<longrightarrow>
        (kind (threads st ! tid) = Fetch_worker \<longrightarrow> fetch_thread st = Some tid) \<and>
        (kind (threads st ! tid) = Download_worker \<longrightarrow> download_thread st = Some tid))"

text \<open>
  The program points of a download worker before it starts an item: it has not yet read
  the list, it has read it, or it is about to check the flag for the next item.
\<close>

definition before_item :: "proc \<Rightarrow> bool" where
  "before_item p =
     ((\<exists>a. p = Get_list a download_videos) \<or> (\<exists>vs. p = download_videos vs) \<or>
      (\<exists>i n xs. p = download_loop i n xs))"

text \<open>
  A download worker that will download nothing more: it is before an item while the flag
  is set and it is the thread of \<open>download_thread\<close>, or only puts are left to it, or it
  has terminated.
\<close>

definition stopping :: "nat \<Rightarrow> state \<Rightarrow> bool" where
  "stopping tid st =
     (tid < length (threads st) \<and>
      ((cancel_download st \<and> download_thread st = Some tid \<and>
        (\<exists>p. tstate (threads st ! tid) = Running p \<and> before_item p)) \<or>
       (\<exists>m m'. tstate (threads st ! tid) = Running (Put m (Put m' Return))) \<or>
       (\<exists>m. tstate (threads st ! tid) = Running (Put m Return)) \<or>
       tstate (threads st ! tid) = Running Return \<or>
       tstate (threads st ! tid) = Terminated))"

text \<open>
  The values of the key \<open>duration\<close> on which \<open>_format_duration\<close> returns: the key
  absent or \<open>None\<close>, an integer, and the float zero.
\<close>

definition formattable :: "number option \<Rightarrow> bool" where
  "formattable d = (case d of Some (PyFloat m e) \<Rightarrow> m = 0 | _ \<Rightarrow> True)"


section \<open>Sample inputs\<close>

text \<open>Concrete dictionaries and library behaviours at which the theorems below are
  instantiated.\<close>

definition no_keys :: entry where
  "no_keys = \<lparr>k_id = None, k_title = None, k_duration = None, k_uploader = None,
              k_channel = None, k_url = None, k_webpage_url = None, k_thumbnail = None\<rparr>"

definition clip :: entry where
  "clip = no_keys\<lparr>k_id := Some ''abc'', k_title := Some ''Clip'', k_duration := Some (PyInt 65),
                  k_uploader := Some ''Chan''\<rparr>"

definition shallow_video :: info where
  "shallow_video = entry.extend clip \<lparr>k_entries = None\<rparr>"


text \<open>The same video with the duration \<open>65.0\<close>, a playlist of 25 entries of which
  10 are \<open>None\<close>, and a playlist of 22 entries with the duration \<open>65.0\<close>.\<close>

definition float_clip :: entry where
  "float_clip = clip\<lparr>k_duration := Some (PyFloat 65 0)\<rparr>"

definition shallow_float_video :: info where
  "shallow_float_video = entry.extend float_clip \<lparr>k_entries = None\<rparr>"



definition timeout_env :: env where
  "timeout_env = \<lparr>YoutubeDL = (\<lambda>ydl_opts. None),
                  extract_info = (\<lambda>ydl_opts u. Inl ''Read timeout''),
                  download = (\<lambda>u. None)\<rparr>"

definition shallow_only_env :: "info \<Rightarrow> env" where
  "shallow_only_env i =
     \<lparr>YoutubeDL = (\<lambda>ydl_opts. None),
      extract_info = (\<lambda>ydl_opts u. if ydl_opts = Basic then Inr i else Inl ''HTTP Error 403''),
      download = (\<lambda>u. None)\<rparr>"

text \<open>Sample runs of the system: a click is a press and a release at one position.\<close>

definition up :: "int \<times> int \<Rightarrow> ui_event" where
  "up p = \<lparr>event = MOUSEBUTTONUP p, text_after = ''u'', clicked_item = None\<rparr>"

definition down :: "int \<times> int \<Rightarrow> ui_event" where
  "down p = \<lparr>event = MOUSEBUTTONDOWN p, text_after = ''u'', clicked_item = None\<rparr>"

definition click :: "int \<times> int \<Rightarrow> action list" where
  "click p = [Handle (down p), Handle (up p)]"

definition sample_env :: env where
  "sample_env = shallow_only_env shallow_video"

definition fetched :: "action list" where
  "fetched = click (700, 60) @ [Step 0, Step 0, Step 0, Step 0, Step 0, Update]"

definition downloading :: "action list" where
  "downloading = fetched @
     [Handle \<lparr>event = MOUSEBUTTONDOWN (100, 160), text_after = ''u'', clicked_item = Some 0\<rparr>]
     @ click (800, 60) @ [Step 1, Step 1, Update]"

definition cancelled :: "action list" where
  "cancelled = downloading @ click (900, 60)"

text \<open>A list with two selected videos, and a library that refuses the download of the
  video \<open>c\<close>.\<close>

definition video :: "string \<Rightarrow> bool \<Rightarrow> VideoInfo" where
  "video n sel = \<lparr>video_id = n, title = ''Video '' @ n, duration = ''1:05'', uploader = ''Chan'',
                  url = ''https://youtu.be/'' @ n, thumbnail = [], selected = sel\<rparr>"

definition three_videos :: "VideoInfo list" where
  "three_videos = [video ''a'' True, video ''b'' False, video ''c'' True]"

definition forbidden_env :: env where
  "forbidden_env =
     \<lparr>YoutubeDL = (\<lambda>ydl_opts. None),
      extract_info = (\<lambda>ydl_opts u. Inl ''unused''),
      download = (\<lambda>u. if u = ''https://youtu.be/c'' then Some ''HTTP Error 403: Forbidden''
                       else None)\<rparr>"

text \<open>The states reached by the sample runs.\<close>

definition clip_video :: "bool \<Rightarrow> VideoInfo" where
  "clip_video sel = \<lparr>video_id = ''abc'', title = ''Clip'', duration = ''1:05'', uploader = ''Chan'',
             url = ''u'', thumbnail = [], selected = sel\<rparr>"

definition fetched_state :: state where
  "fetched_state =
     \<lparr>running = True, url_text = ''u'',
      fetch_button = \<lparr>pressed = False, enabled = True, hovered = False\<rparr>,
      download_button = \<lparr>pressed = False, enabled = True, hovered = False\<rparr>,
      cancel_button = \<lparr>pressed = False, enabled = False, hovered = False\<rparr>,
      status_text = ''Successfully loaded 1 video(s)'', progress_text = [],
      videos = 1, heap = [[], [clip_video False]],
      fetch_thread = Some 0, download_thread = None,
      cancel_download = False, message_queue = [],
      threads = [\<lparr>kind = Fetch_worker, tstate = Terminated\<rparr>], downloaded = []\<rparr>"

definition downloading_state :: state where
  "downloading_state =
     fetched_state
       \<lparr>heap := [[], [clip_video True]],
        download_button := \<lparr>pressed = False, enabled = False, hovered = False\<rparr>,
        cancel_button := \<lparr>pressed = False, enabled = True, hovered = False\<rparr>,
        status_text := ''Downloading 1 video(s)...'',
        download_thread := Some 1,
        threads := [\<lparr>kind = Fetch_worker, tstate = Terminated\<rparr>,
                    \<lparr>kind = Download_worker,
                      tstate = Running (download_loop 0 1 [clip_video True])\<rparr>]\<rparr>"

definition in_progress :: "action list" where
  "in_progress = downloading @ [Step 1, Step 1, Step 1]"

definition restarted :: "action list" where
  "restarted = cancelled @ [Step 1, Step 1, Step 1, Update]"

section \<open>Duration formatting: properties\<close>

lemma str_nat_small: "n < 10 \<Longrightarrow> length (str_nat n) = 1"
  by (subst str_nat.simps) simp

lemma str_nat_two: "10 \<le> n \<Longrightarrow> n < 100 \<Longrightarrow> length (str_nat n) = 2"
  by (subst str_nat.simps) (simp add: str_nat_small)

lemma format_02d_length: "0 \<le> i \<Longrightarrow> i < 100 \<Longrightarrow> length (format_02d i) = 2"
  apply (cases "i < 10")
   apply (simp_all add: format_02d_def str_int_def Let_def str_nat_small str_nat_two)
  done

text \<open>
  Claim C7. The duration formatter maps 0 to \<open>0:00\<close>, 65 to \<open>1:05\<close> and 3725 to
  \<open>1:02:05\<close>. From one hour on, the text is the hours, a colon, the minutes on two
  digits, a colon and the seconds on two digits; for a positive input below one hour it
  is the minutes, a colon and the seconds on two digits.
\<close>

theorem format_duration_spec:
  "format_duration 0 = ''0:00'' \<and> format_duration 65 = ''1:05'' \<and>
   format_duration 3725 = ''1:02:05'' \<and>
   (3600 \<le> s \<longrightarrow>
      format_duration s = str_int (s div 3600) @ '':'' @ format_02d (s mod 3600 div 60)
                            @ '':'' @ format_02d (s mod 60)) \<and>
   (0 < s \<and> s < 3600 \<longrightarrow>
      format_duration s = str_int (s div 60) @ '':'' @ format_02d (s mod 60)) \<and>
   length (format_02d (s mod 3600 div 60)) = 2 \<and> length (format_02d (s mod 60)) = 2"
proof -
  have ex: "format_duration 0 = ''0:00''" "format_duration 65 = ''1:05''"
    "format_duration 3725 = ''1:02:05''"
    by (simp_all add: format_duration_def format_02d_def str_int_def str_nat.simps)
  have hms: "3600 \<le> s \<Longrightarrow> format_duration s = str_int (s div 3600) @ '':'' @
      format_02d (s mod 3600 div 60) @ '':'' @ format_02d (s mod 60)"
  proof -
    assume a: "3600 \<le> s"
    then have "s div 3600 \<noteq> 0" by (simp add: div_eq_0_iff)
    moreover have "s mod 3600 mod 60 = s mod 60"
      by (simp add: mod_mod_cancel)
    ultimately show ?thesis using a by (simp add: format_duration_def Let_def)
  qed
  have ms: "0 < s \<and> s < 3600 \<Longrightarrow> format_duration s = str_int (s div 60) @ '':'' @ format_02d (s mod 60)"
    by (simp add: format_duration_def Let_def)
  have m: "0 \<le> s mod 3600 div 60" "s mod 3600 div 60 < 100"
    by (simp_all add: pos_imp_zdiv_nonneg_iff)
  have l: "length (format_02d (s mod 3600 div 60)) = 2" "length (format_02d (s mod 60)) = 2"
    using m by (simp_all add: format_02d_length)
  show ?thesis using ex hms ms l by blast
qed

theorem format_duration_spec_witness:
  "(3600::int) \<le> 3725 \<and> format_duration 3725 = ''1:02:05'' \<and>
   (0::int) < 65 \<and> (65::int) < 3600 \<and> format_duration 65 = ''1:05''"
  using format_duration_spec [of 3725] format_duration_spec [of 65]
  by simp

section \<open>The fetch worker: properties\<close>

lemma results_append: "results (xs @ ys) = results xs @ results ys"
  by (induction xs rule: results.induct) auto

lemma statuses_append: "statuses (xs @ ys) = statuses xs @ statuses ys"
  by (induction xs rule: statuses.induct) auto

lemma process_entries_results: "results (fst (process_entries env i n es)) = []"
  by (induction es arbitrary: i) (simp_all add: case_prod_beta)



lemma collect_videos_results: "results (fst (collect_videos env u info)) = []"
  by (simp add: collect_videos_def Let_def case_prod_beta process_entries_results)


lemma collect_videos_single:
  assumes "\<not> is_playlist info"
  shows "snd (collect_videos env u info) =
           (case single_video env u info of Inl err \<Rightarrow> Inl err | Inr v \<Rightarrow> Inr [v])"
  using assms by (simp add: collect_videos_def)

lemma fetch_returned:
  assumes "YoutubeDL env Basic = None" and "extract_info env Basic u = Inr info"
  shows "fetch_video_info env u =
           (Status ''Fetching video information...'' # fst (collect_videos env u info)) @
           (case snd (collect_videos env u info) of
              Inl err \<Rightarrow> [Status (classify err)]
            | Inr vs \<Rightarrow>
                [Videos vs,
                 Status (''Successfully loaded '' @ str_nat (length vs) @ '' video(s)'')])"
  using assms by (simp add: fetch_video_info_def split: prod.splits sum.splits)

lemma fetch_returned_results:
  assumes "YoutubeDL env Basic = None" and "extract_info env Basic u = Inr info"
  shows "results (fetch_video_info env u) =
           (case snd (collect_videos env u info) of Inl err \<Rightarrow> [] | Inr vs \<Rightarrow> [vs])"
  by (simp add: fetch_returned [OF assms] results_append collect_videos_results
      split: sum.splits)






lemma single_fallback_returns:
  assumes "formattable (k_duration info)"
  shows "\<exists>d. format_duration_of (get_or (k_duration info) (PyInt 0)) = Inr d \<and>
           single_fallback u info =
             Inr \<lparr>video_id = get_or (k_id info) ''unknown'',
                  title = get_or (k_title info) ''Untitled Video'',
                  duration = d,
                  uploader = get_or (k_uploader info) ''Unknown Channel'',
                  url = u,
                  thumbnail = get_or (k_thumbnail info) [],
                  selected = False\<rparr>"
  using assms
  by (simp add: formattable_def single_fallback_def format_duration_of_def get_or_def
      split: option.splits number.splits)

text \<open>
  Claim C1, as amended. When the shallow \<open>extract_info\<close> raises with text \<open>e\<close>, the
  worker has put its initial status and puts exactly one more message, the status
  \<open>Error fetching basic info: e\<close> with the text unclassified, and no \<open>videos\<close>
  message. The classification by substring is what an exception of the constructor at
  the \<open>with\<close> statement gets: again one more status and no \<open>videos\<close> message.
\<close>


theorem shallow_failure_status:
  "(YoutubeDL env Basic = None \<and> extract_info env Basic u = Inl e \<longrightarrow>
      fetch_video_info env u =
        [Status ''Fetching video information...'', Status (''Error fetching basic info: '' @ e)]
      \<and> results (fetch_video_info env u) = []) \<and>
   (YoutubeDL env Basic = Some e \<longrightarrow>
      fetch_video_info env u = [Status ''Fetching video information...'', Status (classify e)]
      \<and> results (fetch_video_info env u) = [])"
  by (simp add: fetch_video_info_def)

theorem shallow_failure_status_witness:
  "fetch_video_info timeout_env ''https://youtu.be/x'' =
     [Status ''Fetching video information...'', Status ''Error fetching basic info: Read timeout'']
   \<and> fetch_video_info (timeout_env\<lparr>YoutubeDL := (\<lambda>ydl_opts. Some ''Video unavailable'')\<rparr>) ''https://youtu.be/x'' =
     [Status ''Fetching video information...'', Status ''Error: Video is unavailable or private'']"
  using shallow_failure_status [of timeout_env "''https://youtu.be/x''" "''Read timeout''"]
    shallow_failure_status [of "timeout_env\<lparr>YoutubeDL := (\<lambda>ydl_opts. Some ''Video unavailable'')\<rparr>"
       "''https://youtu.be/x''" "''Video unavailable''"]
  by (simp add: timeout_env_def classify_def lower_def lower_char_def)

text \<open>
  Claim C1, as stated, fails when the shallow extraction raises \<open>Read timeout\<close>: two
  status messages are put, and none of them carries the classified text.
\<close>

theorem shallow_failure_classified_counterexample:
  "YoutubeDL timeout_env Basic = None \<and>
   extract_info timeout_env Basic ''https://youtu.be/x'' = Inl ''Read timeout'' \<and>
   classify ''Read timeout'' = ''Error: Request timed out. Check your internet connection.'' \<and>
   statuses (fetch_video_info timeout_env ''https://youtu.be/x'') =
     [''Fetching video information...'', ''Error fetching basic info: Read timeout''] \<and>
   statuses (fetch_video_info timeout_env ''https://youtu.be/x'') \<noteq> [classify ''Read timeout''] \<and>
   classify ''Read timeout'' \<notin> set (statuses (fetch_video_info timeout_env ''https://youtu.be/x''))"
  by (simp add: timeout_env_def fetch_video_info_def classify_def lower_def lower_char_def)



text \<open>
  In the single-video branch with the detailed extraction raising, a shallow duration
  that is absent, \<open>None\<close>, an integer or zero gives one \<open>videos\<close> message with one
  descriptor, whose title and uploader are those of the shallow dictionary (the defaults
  of \<open>get\<close> when the key is absent) and whose duration is the shallow one formatted.
\<close>

lemma single_fallback_result:
  assumes "YoutubeDL env Basic = None" and "extract_info env Basic u = Inr info"
    and "\<not> is_playlist info" and "extract_info env Detailed u = Inl e"
    and "formattable (k_duration info)"
  shows "\<exists>v. results (fetch_video_info env u) = [[v]] \<and>
           title v = get_or (k_title info) ''Untitled Video'' \<and>
           Inr (duration v) = format_duration_of (get_or (k_duration info) (PyInt 0)) \<and>
           uploader v = get_or (k_uploader info) ''Unknown Channel''"
proof -
  have d: "single_detailed env u info = None"
    using assms(4) by (simp add: single_detailed_def extract_detail_def split: option.splits)
  obtain v where v: "single_fallback u info = Inr v"
      "title v = get_or (k_title info) ''Untitled Video''"
      "Inr (duration v) = format_duration_of (get_or (k_duration info) (PyInt 0))"
      "uploader v = get_or (k_uploader info) ''Unknown Channel''"
    using single_fallback_returns [OF assms(5), of u] by force
  have "snd (collect_videos env u info) = Inr [v]"
    using assms(3) d v(1) by (simp add: collect_videos_single single_video_def)
  then have "results (fetch_video_info env u) = [[v]]"
    by (simp add: fetch_returned_results [OF assms(1,2)])
  then show ?thesis using v by blast
qed

text \<open>
  Claim C9 fails on the code for a single video whose shallow dictionary has the title
  \<open>Clip\<close>, the uploader \<open>Chan\<close> and the duration \<open>65.0\<close>, and whose detailed extraction
  raises: \<open>_format_duration\<close> raises in the fallback block, the exception reaches the
  outer handler, and the worker ends with the status of that handler, having put no
  \<open>videos\<close> message.
\<close>

theorem single_video_fallback_raises:
  "YoutubeDL (shallow_only_env shallow_float_video) Basic = None \<and>
   extract_info (shallow_only_env shallow_float_video) Basic ''u'' = Inr shallow_float_video \<and>
   \<not> is_playlist shallow_float_video \<and>
   extract_info (shallow_only_env shallow_float_video) Detailed ''u'' = Inl ''HTTP Error 403'' \<and>
   k_title shallow_float_video = Some ''Clip'' \<and>
   k_duration shallow_float_video = Some (PyFloat 65 0) \<and>
   k_uploader shallow_float_video = Some ''Chan'' \<and>
   single_video (shallow_only_env shallow_float_video) ''u'' shallow_float_video =
     Inl float_format_error \<and>
   fetch_video_info (shallow_only_env shallow_float_video) ''u'' =
     [Status ''Fetching video information...'', Status ''Getting video details...'',
      Status (''Error: '' @ float_format_error)] \<and>
   results (fetch_video_info (shallow_only_env shallow_float_video) ''u'') = []"
  by (simp add: fetch_video_info_def collect_videos_def is_playlist_def shallow_float_video_def
      float_clip_def entry.defs info.defs single_video_def single_detailed_def
      single_fallback_def extract_detail_def shallow_only_env_def clip_def no_keys_def
      get_or_def format_duration_of_def float_format_error_def classify_def lower_def
      lower_char_def)




section \<open>The download worker: properties\<close>

lemma exec_loop_cancel:
  assumes "k < length xs" and "\<forall>j<k. \<not> flags (n + j)"
    and "\<forall>v\<in>set (take k xs). ydl_download env v = None" and "flags (n + k)"
  shows "exec env vs (download_loop i tot xs) flags n =
           (map (\<lambda>(j, v). Progress (progress_line j tot v)) (enumerate i (take k xs))
              @ [Status ''Download cancelled''], take k xs)"
  using assms
proof (induction xs arbitrary: i n k)
  case Nil
  then show ?case by simp
next
  case (Cons x xs)
  show ?case
  proof (cases k)
    case 0
    with Cons.prems show ?thesis by simp
  next
    case (Suc k')
    have a: "k' < length xs" using Cons.prems(1) Suc by simp
    have b: "\<forall>j<k'. \<not> flags (Suc n + j)" using Cons.prems(2) Suc by auto
    have c: "\<forall>v\<in>set (take k' xs). ydl_download env v = None" using Cons.prems(3) Suc by simp
    have d: "flags (Suc n + k')" using Cons.prems(4) Suc by simp
    have e: "\<not> flags n" using Cons.prems(2) Suc by force
    have f: "ydl_download env x = None" using Cons.prems(3) Suc by simp
    show ?thesis
      using Cons.IH [OF a b c d, of "Suc i"] e f Suc by simp
  qed
qed

lemma exec_loop_error:
  assumes "k < length xs" and "\<forall>j\<le>k. \<not> flags (n + j)"
    and "\<forall>v\<in>set (take k xs). ydl_download env v = None" and "ydl_download env (xs ! k) = Some e"
  shows "exec env vs (download_loop i tot xs) flags n =
           (map (\<lambda>(j, v). Progress (progress_line j tot v)) (enumerate i (take (Suc k) xs))
              @ [Status (''Download error: '' @ e), Progress []], take k xs)"
  using assms
proof (induction xs arbitrary: i n k)
  case Nil
  then show ?case by simp
next
  case (Cons x xs)
  have e: "\<not> flags n" using Cons.prems(2) by force
  show ?case
  proof (cases k)
    case 0
    with Cons.prems e show ?thesis by simp
  next
    case (Suc k')
    have a: "k' < length xs" using Cons.prems(1) Suc by simp
    have b: "\<forall>j\<le>k'. \<not> flags (Suc n + j)" using Cons.prems(2) Suc by auto
    have c: "\<forall>v\<in>set (take k' xs). ydl_download env v = None" using Cons.prems(3) Suc by simp
    have d: "ydl_download env (xs ! k') = Some e" using Cons.prems(4) Suc by simp
    have f: "ydl_download env x = None" using Cons.prems(3) Suc by simp
    show ?thesis
      using Cons.IH [OF a b c d, of "Suc i"] e f Suc by simp
  qed
qed

lemma exec_loop_complete:
  assumes "\<forall>j<length xs. \<not> flags (n + j)" and "\<forall>v\<in>set xs. ydl_download env v = None"
  shows "exec env vs (download_loop i tot xs) flags n =
           (map (\<lambda>(j, v). Progress (progress_line j tot v)) (enumerate i xs)
              @ [Status (''Successfully downloaded '' @ str_nat tot @ '' video(s)''), Progress []],
            xs)"
  using assms
proof (induction xs arbitrary: i n)
  case Nil
  then show ?case by simp
next
  case (Cons x xs)
  have e: "\<not> flags n" using Cons.prems(1) by force
  have b: "\<forall>j<length xs. \<not> flags (Suc n + j)" using Cons.prems(1) by auto
  have c: "\<forall>v\<in>set xs. ydl_download env v = None" using Cons.prems(2) by simp
  have f: "ydl_download env x = None" using Cons.prems(2) by simp
  show ?case using Cons.IH [OF b c, of "Suc i"] e f by simp
qed

lemma exec_download_videos:
  assumes "filter selected vs \<noteq> []"
  shows "exec env vs (download_videos vs) flags 0 =
     (Status (''Downloading '' @ str_nat (length (filter selected vs)) @ '' video(s)...'') #
        fst (exec env vs (download_loop 0 (length (filter selected vs)) (filter selected vs)) flags 0),
      snd (exec env vs (download_loop 0 (length (filter selected vs)) (filter selected vs)) flags 0))"
  using assms by (simp add: download_videos_def Let_def case_prod_beta)

lemma exec_none_selected:
  assumes "filter selected vs = []"
  shows "exec env vs (Get_list a download_videos) flags n = ([Status ''No videos selected''], [])"
  using assms by (simp add: download_videos_def)

lemma progresses_append: "progresses (xs @ ys) = progresses xs @ progresses ys"
  by (induction xs rule: progresses.induct) auto

lemma progresses_lines:
  "progresses (map (\<lambda>(j, v). Progress (f j v)) xs) = map (\<lambda>(j, v). f j v) xs"
  by (induction xs) auto

lemma fold_apply_snoc: "fold apply_message (ms @ [m]) st = apply_message m (fold apply_message ms st)"
  by simp

lemma progress_text_apply:
  "progress_text (apply_message (Status t) st) = progress_text st"
  "progress_text (apply_message (Progress t) st) = t"
  "progress_text (apply_message (Videos vs) st) = progress_text st"
  by (simp_all add: apply_message_def)

lemma progress_text_fold:
  "progress_text (fold apply_message ms st) =
     (if progresses ms = [] then progress_text st else last (progresses ms))"
proof (induction ms rule: rev_induct)
  case Nil
  then show ?case by simp
next
  case (snoc m ms)
  show ?case
    by (cases m) (simp_all add: progresses_append progress_text_apply snoc)
qed

lemma last_lines:
  assumes "0 < k" and "k \<le> length xs"
  shows "last (map (\<lambda>(j, v). f j v) (enumerate 0 (take k xs))) = f (k - 1) (xs ! (k - 1))"
proof -
  have ne: "map (\<lambda>(j, v). f j v) (enumerate 0 (take k xs)) \<noteq> []"
    using assms by (auto simp: enumerate_eq_zip)
  have len: "length (enumerate 0 (take k xs)) = k" using assms by simp
  show ?thesis
    using assms by (simp add: last_conv_nth [OF ne] len nth_enumerate_eq)
qed

text \<open>
  Claim C8. When the download of the selected item at index \<open>k\<close> raises with text
  \<open>e\<close> (the worker has reached it: the flag was not set at the checks up to it and the
  items before it were downloaded), the worker has put the announcement and the progress
  lines of the items up to \<open>k\<close>, and then puts the status \<open>Download error: e\<close> and
  the empty progress and returns; the videos downloaded are exactly the items before
  \<open>k\<close>, so no item after the failing one is downloaded.
\<close>

theorem download_error_stops_batch:
  assumes "k < length (filter selected vs)"
    and "\<forall>j\<le>k. \<not> flags j"
    and "\<forall>v\<in>set (take k (filter selected vs)). ydl_download env v = None"
    and "ydl_download env (filter selected vs ! k) = Some e"
  shows "exec env vs (Get_list a download_videos) flags 0 =
     (Status (''Downloading '' @ str_nat (length (filter selected vs)) @ '' video(s)...'') #
        map (\<lambda>(j, v). Progress (progress_line j (length (filter selected vs)) v))
          (enumerate 0 (take (Suc k) (filter selected vs)))
        @ [Status (''Download error: '' @ e), Progress []],
      take k (filter selected vs))"
proof -
  have ne: "filter selected vs \<noteq> []" using assms(1) by auto
  have fl: "\<forall>j\<le>k. \<not> flags (0 + j)" using assms(2) by simp
  show ?thesis
    by (simp add: exec_download_videos [OF ne] exec_loop_error [OF assms(1) fl assms(3,4)])
qed

theorem download_error_stops_batch_witness:
  "exec forbidden_env three_videos (Get_list 0 download_videos) (\<lambda>n. False) 0 =
     ([Status ''Downloading 2 video(s)...'', Progress ''Downloading 1/2: Video a...'',
       Progress ''Downloading 2/2: Video c...'',
       Status ''Download error: HTTP Error 403: Forbidden'', Progress []],
      [video ''a'' True])"
proof -
  have sel: "filter selected three_videos = [video ''a'' True, video ''c'' True]"
    by (simp add: three_videos_def video_def)
  have a: "1 < length (filter selected three_videos)" by (simp add: sel)
  have b: "\<forall>j\<le>1. \<not> (\<lambda>n::nat. False) j" by simp
  have c: "\<forall>v\<in>set (take 1 (filter selected three_videos)). ydl_download forbidden_env v = None"
    by (simp add: sel ydl_download_def forbidden_env_def video_def)
  have d: "ydl_download forbidden_env (filter selected three_videos ! 1) =
      Some ''HTTP Error 403: Forbidden''"
    by (simp add: sel ydl_download_def forbidden_env_def video_def)
  show ?thesis
    using download_error_stops_batch [OF a b c d, where a = 0]
    by (simp add: sel progress_line_def str_nat.simps video_def enumerate_eq_zip upt_rec)
qed

text \<open>
  Claim C10. When the flag is first seen set at the check before the selected item at
  index \<open>k\<close>, the messages of the worker are the announcement, the progress lines of
  the items before \<open>k\<close> and the status \<open>Download cancelled\<close>: no progress message
  follows. After the main loop has applied them, \<open>progress_text\<close> is the line of the
  last item started, or what it was before when no item was started. On the completion
  path and on the error path the last message is the empty progress, and
  \<open>progress_text\<close> is empty after the messages are applied.
\<close>

theorem cancel_keeps_progress_text:
  assumes "k < length (filter selected vs)"
    and "\<forall>j<k. \<not> flags j" and "flags k"
    and "\<forall>v\<in>set (take k (filter selected vs)). ydl_download env v = None"
  shows "fst (exec env vs (Get_list a download_videos) flags 0) =
           Status (''Downloading '' @ str_nat (length (filter selected vs)) @ '' video(s)...'') #
           map (\<lambda>(j, v). Progress (progress_line j (length (filter selected vs)) v))
             (enumerate 0 (take k (filter selected vs)))
           @ [Status ''Download cancelled''] \<and>
         progress_text (fold apply_message (fst (exec env vs (Get_list a download_videos) flags 0)) st) =
           (if k = 0 then progress_text st
            else progress_line (k - 1) (length (filter selected vs)) (filter selected vs ! (k - 1))) \<and>
         ((\<forall>j<length (filter selected vs). \<not> flags' j) \<and>
          (\<forall>v\<in>set (filter selected vs). ydl_download env' v = None) \<longrightarrow>
            last (fst (exec env' vs (Get_list a download_videos) flags' 0)) = Progress [] \<and>
            progress_text (fold apply_message
              (fst (exec env' vs (Get_list a download_videos) flags' 0)) st) = []) \<and>
         (k' < length (filter selected vs) \<and> (\<forall>j\<le>k'. \<not> flags' j) \<and>
          (\<forall>v\<in>set (take k' (filter selected vs)). ydl_download env' v = None) \<and>
          ydl_download env' (filter selected vs ! k') = Some e \<longrightarrow>
            last (fst (exec env' vs (Get_list a download_videos) flags' 0)) = Progress [] \<and>
            progress_text (fold apply_message
              (fst (exec env' vs (Get_list a download_videos) flags' 0)) st) = [])"
proof -
  let ?sel = "filter selected vs"
  let ?n = "length ?sel"
  have ne: "?sel \<noteq> []" using assms(1) by auto
  have fl: "\<forall>j<k. \<not> flags (0 + j)" "flags (0 + k)" using assms(2,3) by simp_all
  have msgs: "fst (exec env vs (Get_list a download_videos) flags 0) =
      Status (''Downloading '' @ str_nat ?n @ '' video(s)...'') #
      map (\<lambda>(j, v). Progress (progress_line j ?n v)) (enumerate 0 (take k ?sel))
      @ [Status ''Download cancelled'']"
    by (simp add: exec_download_videos [OF ne] exec_loop_cancel [OF assms(1) fl(1) assms(4) fl(2)])
  have pr: "progresses (fst (exec env vs (Get_list a download_videos) flags 0)) =
      map (\<lambda>(j, v). progress_line j ?n v) (enumerate 0 (take k ?sel))"
    by (simp only: msgs) (simp add: progresses_append progresses_lines)
  have ptext: "progress_text (fold apply_message
        (fst (exec env vs (Get_list a download_videos) flags 0)) st) =
      (if k = 0 then progress_text st else progress_line (k - 1) ?n (?sel ! (k - 1)))"
  proof (cases "k = 0")
    case True
    then show ?thesis by (simp only: progress_text_fold pr) simp
  next
    case False
    then have k: "0 < k" "k \<le> length ?sel" using assms(1) by simp_all
    have "map (\<lambda>(j, v). progress_line j ?n v) (enumerate 0 (take k ?sel)) \<noteq> []"
      using k by (auto simp: enumerate_eq_zip)
    then show ?thesis
      using False by (simp only: progress_text_fold pr last_lines [OF k] if_False)
  qed
  have complete: "last (fst (exec env' vs (Get_list a download_videos) flags' 0)) = Progress [] \<and>
      progress_text (fold apply_message
        (fst (exec env' vs (Get_list a download_videos) flags' 0)) st) = []"
    if h: "\<forall>j<length ?sel. \<not> flags' j" "\<forall>v\<in>set ?sel. ydl_download env' v = None"
  proof -
    have "\<forall>j<length ?sel. \<not> flags' (0 + j)" using h(1) by simp
    then show ?thesis
      by (simp add: exec_download_videos [OF ne] exec_loop_complete [OF _ h(2)]
          progress_text_fold progresses_append progresses_lines progress_text_apply)
  qed
  have err: "last (fst (exec env' vs (Get_list a download_videos) flags' 0)) = Progress [] \<and>
      progress_text (fold apply_message
        (fst (exec env' vs (Get_list a download_videos) flags' 0)) st) = []"
    if h: "k' < length ?sel" "\<forall>j\<le>k'. \<not> flags' j"
      "\<forall>v\<in>set (take k' ?sel). ydl_download env' v = None"
      "ydl_download env' (?sel ! k') = Some e"
  proof -
    have "\<forall>j\<le>k'. \<not> flags' (0 + j)" using h(2) by simp
    then show ?thesis
      by (simp add: exec_download_videos [OF ne] exec_loop_error [OF h(1) _ h(3,4)]
          progress_text_fold progresses_append progresses_lines progress_text_apply)
  qed
  show ?thesis using msgs ptext complete err by blast
qed

theorem cancel_keeps_progress_text_witness:
  "fst (exec forbidden_env three_videos (Get_list 0 download_videos) (\<lambda>n. 1 \<le> n) 0) =
     [Status ''Downloading 2 video(s)...'', Progress ''Downloading 1/2: Video a...'',
      Status ''Download cancelled''] \<and>
   progress_text (fold apply_message
     (fst (exec forbidden_env three_videos (Get_list 0 download_videos) (\<lambda>n. 1 \<le> n) 0)) init) =
     ''Downloading 1/2: Video a...'' \<and>
   progress_text (fold apply_message
     (fst (exec forbidden_env three_videos (Get_list 0 download_videos) (\<lambda>n. False) 0)) init) = []"
proof -
  have sel: "filter selected three_videos = [video ''a'' True, video ''c'' True]"
    by (simp add: three_videos_def video_def)
  have a: "1 < length (filter selected three_videos)" by (simp add: sel)
  have b: "\<forall>j<1. \<not> (\<lambda>n::nat. 1 \<le> n) j" "(\<lambda>n::nat. 1 \<le> n) 1" by simp_all
  have c: "\<forall>v\<in>set (take 1 (filter selected three_videos)). ydl_download forbidden_env v = None"
    by (simp add: sel ydl_download_def forbidden_env_def video_def)
  have e: "(1::nat) < length (filter selected three_videos) \<and> (\<forall>j\<le>1. \<not> (\<lambda>n::nat. False) j) \<and>
      (\<forall>v\<in>set (take 1 (filter selected three_videos)). ydl_download forbidden_env v = None) \<and>
      ydl_download forbidden_env (filter selected three_videos ! 1) = Some ''HTTP Error 403: Forbidden''"
    by (simp add: sel ydl_download_def forbidden_env_def video_def)
  show ?thesis
    using cancel_keeps_progress_text [OF a b c, of 0 init "\<lambda>n. False" forbidden_env 1
        "''HTTP Error 403: Forbidden''"] e
    by (simp add: sel progress_line_def str_nat.simps video_def enumerate_eq_zip upt_rec
        progress_text_apply)
qed


section \<open>The main loop: properties\<close>

lemma terminated_iff: "terminated ts \<longleftrightarrow> ts = Terminated"
  by (cases ts) simp_all

lemma alive_iff:
  "alive st tid \<longleftrightarrow> tid < length (threads st) \<and> tstate (threads st ! tid) \<noteq> Terminated"
  by (simp add: alive_def terminated_iff)

lemma Button_clicked:
  "snd (Button_handle_event r b ev) \<Longrightarrow>
     \<exists>p. ev = MOUSEBUTTONUP p \<and> collidepoint r p \<and> enabled b \<and> pressed b"
  by (auto simp: Button_handle_event_def split: if_splits event.splits)

lemma rects_disjoint:
  "collidepoint fetch_rect p \<Longrightarrow> \<not> collidepoint download_rect p"
  "collidepoint fetch_rect p \<Longrightarrow> \<not> collidepoint cancel_rect p"
  "collidepoint download_rect p \<Longrightarrow> \<not> collidepoint cancel_rect p"
  by (auto simp: collidepoint_def fetch_rect_def download_rect_def cancel_rect_def)

lemma clicks_exclusive:
  "snd (Button_handle_event fetch_rect b ev) \<Longrightarrow> \<not> snd (Button_handle_event download_rect b' ev)"
  "snd (Button_handle_event fetch_rect b ev) \<Longrightarrow> \<not> snd (Button_handle_event cancel_rect b' ev)"
  "snd (Button_handle_event download_rect b ev) \<Longrightarrow> \<not> snd (Button_handle_event cancel_rect b' ev)"
  "snd (Button_handle_event download_rect b ev) \<Longrightarrow> \<not> snd (Button_handle_event fetch_rect b' ev)"
  using rects_disjoint by (auto dest!: Button_clicked)

lemma on_fetch_cases:
  "(\<exists>b c. on_fetch env ev st = (st\<lparr>fetch_button := b\<rparr>, c)) \<or>
   (\<exists>b p. \<not> is_alive st (fetch_thread st) \<and> snd (Button_handle_event fetch_rect (fetch_button st) ev) \<and>
      on_fetch env ev st =
       (st\<lparr>fetch_button := b, fetch_thread := Some (length (threads st)),
           threads := threads st @ [\<lparr>kind = Fetch_worker, tstate = Running p\<rparr>]\<rparr>, False))"
  by (auto simp: on_fetch_def Let_def start_def is_alive_def alive_iff case_prod_beta
      split: option.splits)

lemma on_download_cases:
  "(\<exists>b. on_download ev st = st\<lparr>download_button := b\<rparr> \<and>
        \<not> (snd (Button_handle_event download_rect (download_button st) ev) \<and>
           deref st (videos st) \<noteq> [] \<and> \<not> is_alive st (download_thread st))) \<or>
   (\<exists>b. \<not> is_alive st (download_thread st) \<and> deref st (videos st) \<noteq> [] \<and>
      snd (Button_handle_event download_rect (download_button st) ev) \<and>
      on_download ev st =
       st\<lparr>download_button := b, cancel_download := False,
          download_thread := Some (length (threads st)),
          threads := threads st @ [\<lparr>kind = Download_worker,
                                   tstate = Running (Get_list (videos st) download_videos)\<rparr>]\<rparr>)"
  by (auto simp: on_download_def Let_def start_def is_alive_def alive_iff deref_def case_prod_beta
      split: option.splits)

lemma on_cancel_cases:
  "\<exists>b c. on_cancel ev st = st\<lparr>cancel_button := b, cancel_download := c\<rparr> \<and>
         (cancel_download st \<longrightarrow> c)"
  apply (simp add: on_cancel_def Let_def case_prod_beta)
  apply (intro conjI impI)
   apply (rule exI [of _ "fst (Button_handle_event cancel_rect (cancel_button st) ev)"], rule exI [of _ True], simp)
  apply (rule exI [of _ "fst (Button_handle_event cancel_rect (cancel_button st) ev)"], rule exI [of _ "cancel_download st"], simp)
  done

lemma on_list_cases: "\<exists>h. on_list c st = st\<lparr>heap := h\<rparr>"
  apply (cases c)
   apply (simp_all add: on_list_def)
   apply (rule exI [of _ "heap st"], simp)
  apply (intro conjI impI)
   apply blast
  apply (rule exI [of _ "heap st"], simp)
  done

lemma refs_ok_cong:
  "threads st' = threads st \<Longrightarrow> fetch_thread st' = fetch_thread st \<Longrightarrow>
   download_thread st' = download_thread st \<Longrightarrow> refs_ok st' = refs_ok st"
  by (simp add: refs_ok_def alive_iff)

lemma refs_ok_upd:
  "refs_ok (st\<lparr>fetch_button := b\<rparr>) = refs_ok st"
  "refs_ok (st\<lparr>download_button := b\<rparr>) = refs_ok st"
  "refs_ok (st\<lparr>cancel_button := b\<rparr>) = refs_ok st"
  "refs_ok (st\<lparr>cancel_download := c\<rparr>) = refs_ok st"
  "refs_ok (st\<lparr>heap := h\<rparr>) = refs_ok st"
  "refs_ok (st\<lparr>running := r\<rparr>) = refs_ok st"
  "refs_ok (st\<lparr>url_text := u\<rparr>) = refs_ok st"
  by (simp_all add: refs_ok_def alive_iff)

lemma refs_ok_spawn_fetch:
  assumes "refs_ok st" and "\<not> is_alive st (fetch_thread st)"
  shows "refs_ok (st\<lparr>fetch_button := b, fetch_thread := Some (length (threads st)),
           threads := threads st @ [\<lparr>kind = Fetch_worker, tstate = Running p\<rparr>]\<rparr>)"
  using assms
  by (auto simp: refs_ok_def alive_iff is_alive_def nth_append less_Suc_eq
      split: kind.splits option.splits)

lemma refs_ok_spawn_download:
  assumes "refs_ok st" and "\<not> is_alive st (download_thread st)"
  shows "refs_ok (st\<lparr>download_button := b, cancel_download := c,
           download_thread := Some (length (threads st)),
           threads := threads st @ [\<lparr>kind = Download_worker, tstate = Running p\<rparr>]\<rparr>)"
  using assms
  by (auto simp: refs_ok_def alive_iff is_alive_def nth_append less_Suc_eq
      split: kind.splits option.splits)

lemma refs_ok_on_fetch: "refs_ok st \<Longrightarrow> refs_ok (fst (on_fetch env ev st))"
  using on_fetch_cases [of env ev st]
  by (auto simp: refs_ok_spawn_fetch refs_ok_upd)

lemma refs_ok_on_download: "refs_ok st \<Longrightarrow> refs_ok (on_download ev st)"
  using on_download_cases [of ev st]
  by (auto simp: refs_ok_spawn_download refs_ok_upd)

lemma refs_ok_on_cancel: "refs_ok st \<Longrightarrow> refs_ok (on_cancel ev st)"
  using on_cancel_cases [of ev st] by (auto simp: refs_ok_upd)

lemma refs_ok_on_list: "refs_ok st \<Longrightarrow> refs_ok (on_list c st)"
  using on_list_cases [of c st] by (auto simp: refs_ok_upd)

lemma refs_ok_handle_event: "refs_ok st \<Longrightarrow> refs_ok (handle_event env e st)"
proof -
  assume a: "refs_ok st"
  let ?st1 = "(if event e = QUIT then st\<lparr>running := False\<rparr> else st)\<lparr>url_text := text_after e\<rparr>"
  have "refs_ok ?st1" using a by (simp add: refs_ok_upd)
  then have b: "refs_ok (fst (on_fetch env (event e) ?st1))" by (rule refs_ok_on_fetch)
  then have "refs_ok (on_list (clicked_item e)
      (on_cancel (event e) (on_download (event e) (fst (on_fetch env (event e) ?st1)))))"
    by (intro refs_ok_on_list refs_ok_on_cancel refs_ok_on_download)
  with b show ?thesis
    by (simp add: handle_event_def Let_def case_prod_beta)
qed

lemma threads_fold_apply: "threads (fold apply_message ms st) = threads st"
  by (induction ms arbitrary: st) (auto simp: apply_message_def split: message.splits)

lemma fetch_thread_fold_apply: "fetch_thread (fold apply_message ms st) = fetch_thread st"
  by (induction ms arbitrary: st) (auto simp: apply_message_def split: message.splits)

lemma download_thread_fold_apply: "download_thread (fold apply_message ms st) = download_thread st"
  by (induction ms arbitrary: st) (auto simp: apply_message_def split: message.splits)

lemma cancel_download_fold_apply: "cancel_download (fold apply_message ms st) = cancel_download st"
  by (induction ms arbitrary: st) (auto simp: apply_message_def split: message.splits)

lemma downloaded_fold_apply: "downloaded (fold apply_message ms st) = downloaded st"
  by (induction ms arbitrary: st) (auto simp: apply_message_def split: message.splits)

lemma update_frame:
  "threads (update st) = threads st" "fetch_thread (update st) = fetch_thread st"
  "download_thread (update st) = download_thread st"
  "cancel_download (update st) = cancel_download st" "downloaded (update st) = downloaded st"
  by (simp_all add: update_def Let_def threads_fold_apply fetch_thread_fold_apply
      download_thread_fold_apply cancel_download_fold_apply downloaded_fold_apply)

lemma refs_ok_update: "refs_ok st \<Longrightarrow> refs_ok (update st)"
  using refs_ok_cong [of "update st" st] by (simp add: update_frame)

lemma thread_step_frame:
  "length (threads (thread_step env tid st)) = length (threads st)"
  "fetch_thread (thread_step env tid st) = fetch_thread st"
  "download_thread (thread_step env tid st) = download_thread st"
  "cancel_download (thread_step env tid st) = cancel_download st"
  "kind (threads (thread_step env tid st) ! t) = kind (threads st ! t)"
  "t \<noteq> tid \<Longrightarrow> threads (thread_step env tid st) ! t = threads st ! t"
  by (auto simp: thread_step_def set_tstate_def nth_list_update
      split: tstate.splits proc.splits)

lemma thread_step_alive: "alive (thread_step env tid st) t \<Longrightarrow> alive st t"
  by (cases "t = tid")
     (auto simp: alive_iff thread_step_def set_tstate_def nth_list_update
      split: tstate.splits proc.splits if_splits)

lemma refs_ok_thread_step: "refs_ok st \<Longrightarrow> refs_ok (thread_step env tid st)"
  unfolding refs_ok_def
  by (auto simp: thread_step_frame dest!: thread_step_alive)

lemma refs_ok_step: "refs_ok st \<Longrightarrow> refs_ok (step env a st)"
  by (cases a) (simp_all add: refs_ok_handle_event refs_ok_update refs_ok_thread_step)

lemma refs_ok_init: "refs_ok init"
  by (simp add: refs_ok_def init_def alive_iff)

lemma run_actions_snoc: "run_actions env (acts @ [a]) st = step env a (run_actions env acts st)"
  by (simp add: run_actions_def)

lemma refs_ok_run: "refs_ok st \<Longrightarrow> refs_ok (run_actions env acts st)"
  by (induction acts rule: rev_induct) (simp_all add: run_actions_snoc refs_ok_step run_actions_def)

lemma refs_ok_one:
  assumes "refs_ok st"
  shows "length (alive_threads k st) \<le> 1"
proof -
  let ?r = "case k of Fetch_worker \<Rightarrow> fetch_thread st | Download_worker \<Rightarrow> download_thread st"
  have d: "distinct (alive_threads k st)" by (simp add: alive_threads_def)
  have "set (alive_threads k st) \<subseteq> {tid. ?r = Some tid}"
    using assms by (auto simp: alive_threads_def refs_ok_def split: kind.splits)
  also have "\<dots> \<subseteq> set_option ?r" by auto
  finally have "card (set (alive_threads k st)) \<le> card (set_option ?r)"
    by (intro card_mono) auto
  also have "\<dots> \<le> 1" by (cases ?r) auto
  finally show ?thesis using d by (simp add: distinct_card)
qed

lemma clicked_exclusive:
  "fetch_clicked st ev \<Longrightarrow> \<not> download_clicked st' ev"
  "fetch_clicked st ev \<Longrightarrow> \<not> cancel_clicked st' ev"
  "download_clicked st ev \<Longrightarrow> \<not> cancel_clicked st' ev"
  "download_clicked st ev \<Longrightarrow> \<not> fetch_clicked st' ev"
  "cancel_clicked st ev \<Longrightarrow> \<not> fetch_clicked st' ev"
  "cancel_clicked st ev \<Longrightarrow> \<not> download_clicked st' ev"
  unfolding fetch_clicked_def download_clicked_def cancel_clicked_def
  using clicks_exclusive by blast+

lemma on_fetch_frame:
  "download_button (fst (on_fetch env ev st)) = download_button st"
  "cancel_button (fst (on_fetch env ev st)) = cancel_button st"
  "cancel_download (fst (on_fetch env ev st)) = cancel_download st"
  "download_thread (fst (on_fetch env ev st)) = download_thread st"
  "message_queue (fst (on_fetch env ev st)) = message_queue st"
  "heap (fst (on_fetch env ev st)) = heap st"
  "videos (fst (on_fetch env ev st)) = videos st"
  "downloaded (fst (on_fetch env ev st)) = downloaded st"
  by (simp_all add: on_fetch_def Let_def start_def case_prod_beta)

lemma on_fetch_threads:
  "threads (fst (on_fetch env ev st)) =
     (if fetch_clicked st ev \<and> strip (url_text st) \<noteq> [] \<and> \<not> is_alive st (fetch_thread st)
      then threads st @ [\<lparr>kind = Fetch_worker,
                           tstate = Running (puts (fetch_video_info env (strip (url_text st))))\<rparr>]
      else threads st)"
  "fetch_thread (fst (on_fetch env ev st)) =
     (if fetch_clicked st ev \<and> strip (url_text st) \<noteq> [] \<and> \<not> is_alive st (fetch_thread st)
      then Some (length (threads st)) else fetch_thread st)"
  "snd (on_fetch env ev st) =
     (fetch_clicked st ev \<and> strip (url_text st) \<noteq> [] \<and> is_alive st (fetch_thread st))"
  by (simp_all add: on_fetch_def Let_def start_def case_prod_beta fetch_clicked_def
      is_alive_def alive_iff split: option.splits)

lemma on_download_frame:
  "fetch_button (on_download ev st) = fetch_button st"
  "cancel_button (on_download ev st) = cancel_button st"
  "fetch_thread (on_download ev st) = fetch_thread st"
  "message_queue (on_download ev st) = message_queue st"
  "heap (on_download ev st) = heap st"
  "videos (on_download ev st) = videos st"
  "downloaded (on_download ev st) = downloaded st"
  by (simp_all add: on_download_def Let_def start_def case_prod_beta)

lemma on_download_threads:
  "threads (on_download ev st) =
     (if download_clicked st ev \<and> deref st (videos st) \<noteq> [] \<and> \<not> is_alive st (download_thread st)
      then threads st @ [\<lparr>kind = Download_worker,
                           tstate = Running (Get_list (videos st) download_videos)\<rparr>]
      else threads st)"
  "download_thread (on_download ev st) =
     (if download_clicked st ev \<and> deref st (videos st) \<noteq> [] \<and> \<not> is_alive st (download_thread st)
      then Some (length (threads st)) else download_thread st)"
  "cancel_download (on_download ev st) =
     (if download_clicked st ev \<and> deref st (videos st) \<noteq> [] \<and> \<not> is_alive st (download_thread st)
      then False else cancel_download st)"
  by (auto simp: on_download_def Let_def start_def case_prod_beta download_clicked_def
      is_alive_def alive_iff deref_def split: option.splits)

lemma on_cancel_frame:
  "fetch_button (on_cancel ev st) = fetch_button st"
  "download_button (on_cancel ev st) = download_button st"
  "threads (on_cancel ev st) = threads st"
  "fetch_thread (on_cancel ev st) = fetch_thread st"
  "download_thread (on_cancel ev st) = download_thread st"
  "message_queue (on_cancel ev st) = message_queue st"
  "heap (on_cancel ev st) = heap st"
  "videos (on_cancel ev st) = videos st"
  "downloaded (on_cancel ev st) = downloaded st"
  "cancel_download (on_cancel ev st) = (cancel_clicked st ev \<or> cancel_download st)"
  by (simp_all add: on_cancel_def Let_def case_prod_beta cancel_clicked_def)

lemma on_list_frame:
  "threads (on_list c st) = threads st"
  "fetch_thread (on_list c st) = fetch_thread st"
  "download_thread (on_list c st) = download_thread st"
  "message_queue (on_list c st) = message_queue st"
  "cancel_download (on_list c st) = cancel_download st"
  "videos (on_list c st) = videos st"
  "downloaded (on_list c st) = downloaded st"
  "length (heap (on_list c st)) = length (heap st)"
  by (simp_all add: on_list_def split: option.splits)

lemma handle_event_alt:
  "handle_event env e st =
     (if snd (on_fetch env (event e) (pre_buttons e st)) then fst (on_fetch env (event e) (pre_buttons e st))
      else on_list (clicked_item e) (on_cancel (event e) (on_download (event e)
             (fst (on_fetch env (event e) (pre_buttons e st))))))"
  by (simp add: handle_event_def pre_buttons_def Let_def case_prod_beta)

lemma pre_buttons_frame:
  "fetch_button (pre_buttons e st) = fetch_button st"
  "download_button (pre_buttons e st) = download_button st"
  "cancel_button (pre_buttons e st) = cancel_button st"
  "threads (pre_buttons e st) = threads st"
  "fetch_thread (pre_buttons e st) = fetch_thread st"
  "download_thread (pre_buttons e st) = download_thread st"
  "message_queue (pre_buttons e st) = message_queue st"
  "cancel_download (pre_buttons e st) = cancel_download st"
  "heap (pre_buttons e st) = heap st"
  "videos (pre_buttons e st) = videos st"
  "downloaded (pre_buttons e st) = downloaded st"
  "url_text (pre_buttons e st) = text_after e"
  by (simp_all add: pre_buttons_def)

lemma pre_clicked:
  "fetch_clicked (pre_buttons e st) ev = fetch_clicked st ev"
  "download_clicked (fst (on_fetch env ev' (pre_buttons e st))) ev = download_clicked st ev"
  "cancel_clicked (on_download ev'' (fst (on_fetch env ev' (pre_buttons e st)))) ev = cancel_clicked st ev"
  "is_alive (pre_buttons e st) t = is_alive st t"
  by (simp_all add: fetch_clicked_def download_clicked_def cancel_clicked_def pre_buttons_frame
      on_fetch_frame on_download_frame is_alive_def alive_iff split: option.splits)

lemma is_alive_append:
  "is_alive (st\<lparr>threads := threads st @ ts\<rparr>) (Some t) = is_alive st (Some t)" if "t < length (threads st)"
  using that by (simp add: is_alive_def alive_iff nth_append)

lemma handle_event_threads:
  "threads (handle_event env e st) =
     (if fetch_spawns e st
      then threads st @ [\<lparr>kind = Fetch_worker,
                           tstate = Running (puts (fetch_video_info env (strip (text_after e))))\<rparr>]
      else if download_spawns e st
      then threads st @ [\<lparr>kind = Download_worker,
                           tstate = Running (Get_list (videos st) download_videos)\<rparr>]
      else threads st)"
proof -
  let ?s1 = "pre_buttons e st"
  let ?s2 = "fst (on_fetch env (event e) ?s1)"
  have al: "\<not> fetch_clicked st (event e) \<Longrightarrow> is_alive ?s2 (download_thread st) = is_alive st (download_thread st)"
    by (simp add: is_alive_def alive_iff on_fetch_threads pre_clicked pre_buttons_frame split: option.splits)
  have dr: "deref ?s2 (videos st) = deref st (videos st)"
    by (simp add: deref_def on_fetch_frame pre_buttons_frame)
  show ?thesis
  proof (cases "fetch_clicked st (event e)")
    case True
    then have nd: "\<not> download_clicked st (event e)" by (rule clicked_exclusive)
    show ?thesis using True nd
      by (simp add: handle_event_alt on_list_frame on_cancel_frame on_download_threads
          on_fetch_threads on_fetch_frame pre_clicked pre_buttons_frame fetch_spawns_def
          download_spawns_def)
  next
    case False
    then show ?thesis
      by (simp add: handle_event_alt on_list_frame on_cancel_frame on_download_threads
          on_fetch_threads on_fetch_frame pre_clicked pre_buttons_frame fetch_spawns_def
          download_spawns_def al dr)
  qed
qed

lemma handle_event_frame:
  "message_queue (handle_event env e st) = message_queue st"
  "downloaded (handle_event env e st) = downloaded st"
  "videos (handle_event env e st) = videos st"
  by (simp_all add: handle_event_alt on_list_frame on_cancel_frame on_download_frame
      on_fetch_frame pre_buttons_frame)

lemma handle_event_fetch_thread:
  "fetch_thread (handle_event env e st) =
     (if fetch_spawns e st then Some (length (threads st)) else fetch_thread st)"
  by (simp add: handle_event_alt on_list_frame on_cancel_frame on_download_frame
      on_fetch_threads pre_clicked pre_buttons_frame fetch_spawns_def)

lemma handle_event_download:
  "download_thread (handle_event env e st) =
     (if download_spawns e st then Some (length (threads st)) else download_thread st)"
  "cancel_download (handle_event env e st) =
     (if download_spawns e st then False else (cancel_clicked st (event e) \<or> cancel_download st))"
proof -
  let ?s1 = "pre_buttons e st"
  let ?s2 = "fst (on_fetch env (event e) ?s1)"
  have al: "\<not> fetch_clicked st (event e) \<Longrightarrow>
      is_alive ?s2 (download_thread st) = is_alive st (download_thread st)"
    by (simp add: is_alive_def alive_iff on_fetch_threads pre_clicked pre_buttons_frame
        split: option.splits)
  have dr: "deref ?s2 (videos st) = deref st (videos st)"
    by (simp add: deref_def on_fetch_frame pre_buttons_frame)
  have both: "download_thread (handle_event env e st) =
     (if download_spawns e st then Some (length (threads st)) else download_thread st) \<and>
     cancel_download (handle_event env e st) =
     (if download_spawns e st then False else (cancel_clicked st (event e) \<or> cancel_download st))"
  proof (cases "fetch_clicked st (event e)")
    case True
    then have nd: "\<not> download_clicked st (event e)" "\<not> cancel_clicked st (event e)"
      by (rule clicked_exclusive)+
    show ?thesis using True nd
      by (simp add: handle_event_alt on_list_frame on_cancel_frame on_download_threads
          on_fetch_threads on_fetch_frame pre_clicked pre_buttons_frame download_spawns_def)
  next
    case False
    show ?thesis
    proof (cases "download_clicked st (event e)")
      case True
      then have nc: "\<not> cancel_clicked st (event e)" by (rule clicked_exclusive)
      show ?thesis using False True nc
        by (simp add: handle_event_alt on_list_frame on_cancel_frame on_download_threads
            on_fetch_threads on_fetch_frame pre_clicked pre_buttons_frame download_spawns_def
            al dr)
    next
      case nd: False
      show ?thesis using False nd
        by (simp add: handle_event_alt on_list_frame on_cancel_frame on_download_threads
            on_fetch_threads on_fetch_frame pre_clicked pre_buttons_frame download_spawns_def
            al dr)
    qed
  qed
  show "download_thread (handle_event env e st) =
     (if download_spawns e st then Some (length (threads st)) else download_thread st)"
    using both by simp
  show "cancel_download (handle_event env e st) =
     (if download_spawns e st then False else (cancel_clicked st (event e) \<or> cancel_download st))"
    using both by simp
qed

lemma spawns_exclusive: "fetch_spawns e st \<Longrightarrow> \<not> download_spawns e st"
  using clicked_exclusive(1) by (auto simp: fetch_spawns_def download_spawns_def)

text \<open>
  Claim C6. In every state the system reaches from its initial state, at most one fetch
  worker and at most one download worker is alive. An event on which the Fetch button
  reports a click while the fetch thread is alive starts no thread and leaves the thread
  attributes, the cancellation flag and the queue as they are; so does an event on which
  the Download button reports a click while the download thread is alive.
\<close>

theorem at_most_one_worker:
  "length (alive_threads k (run_actions env acts init)) \<le> 1 \<and>
   (fetch_clicked st (event e) \<and> is_alive st (fetch_thread st) \<longrightarrow>
      threads (handle_event env e st) = threads st \<and>
      fetch_thread (handle_event env e st) = fetch_thread st \<and>
      download_thread (handle_event env e st) = download_thread st \<and>
      cancel_download (handle_event env e st) = cancel_download st \<and>
      message_queue (handle_event env e st) = message_queue st) \<and>
   (download_clicked st (event e) \<and> is_alive st (download_thread st) \<longrightarrow>
      threads (handle_event env e st) = threads st \<and>
      fetch_thread (handle_event env e st) = fetch_thread st \<and>
      download_thread (handle_event env e st) = download_thread st \<and>
      cancel_download (handle_event env e st) = cancel_download st \<and>
      message_queue (handle_event env e st) = message_queue st)"
proof -
  have one: "length (alive_threads k (run_actions env acts init)) \<le> 1"
    by (intro refs_ok_one refs_ok_run refs_ok_init)
  have f: "threads (handle_event env e st) = threads st \<and>
      fetch_thread (handle_event env e st) = fetch_thread st \<and>
      download_thread (handle_event env e st) = download_thread st \<and>
      cancel_download (handle_event env e st) = cancel_download st \<and>
      message_queue (handle_event env e st) = message_queue st"
    if "fetch_clicked st (event e)" "is_alive st (fetch_thread st)"
  proof -
    have "\<not> fetch_spawns e st" "\<not> download_spawns e st" "\<not> cancel_clicked st (event e)"
      using that clicked_exclusive(1,2) by (auto simp: fetch_spawns_def download_spawns_def)
    then show ?thesis
      by (simp add: handle_event_threads handle_event_fetch_thread handle_event_download
          handle_event_frame)
  qed
  have d: "threads (handle_event env e st) = threads st \<and>
      fetch_thread (handle_event env e st) = fetch_thread st \<and>
      download_thread (handle_event env e st) = download_thread st \<and>
      cancel_download (handle_event env e st) = cancel_download st \<and>
      message_queue (handle_event env e st) = message_queue st"
    if "download_clicked st (event e)" "is_alive st (download_thread st)"
  proof -
    have "\<not> fetch_spawns e st" "\<not> download_spawns e st" "\<not> cancel_clicked st (event e)"
      using that clicked_exclusive(3,4) by (auto simp: fetch_spawns_def download_spawns_def)
    then show ?thesis
      by (simp add: handle_event_threads handle_event_fetch_thread handle_event_download
          handle_event_frame)
  qed
  show ?thesis using one f d by blast
qed

lemmas system_defs = run_actions_def click_def up_def down_def init_def handle_event_def
  on_fetch_def on_download_def on_cancel_def on_list_def Button_handle_event_def
  collidepoint_def fetch_rect_def download_rect_def cancel_rect_def strip_def isspace_def
  is_alive_def alive_def start_def puts_def fetch_video_info_def shallow_only_env_def
  sample_env_def Let_def thread_step_def set_tstate_def update_def apply_message_def
  collect_videos_def is_playlist_def shallow_video_def entry.defs info.defs deref_def
  toggle_def fetch_clicked_def download_clicked_def cancel_clicked_def
  single_video_def single_detailed_def single_fallback_def extract_detail_def
  format_duration_of_def get_or_def clip_def no_keys_def

theorem at_most_one_worker_witness:
  "length (alive_threads Download_worker (run_actions sample_env cancelled init)) \<le> 1 \<and>
   fetch_clicked (run_actions sample_env (click (700, 60) @ [Handle (down (700, 60))]) init)
     (event (up (700, 60))) \<and>
   threads (handle_event sample_env (up (700, 60))
     (run_actions sample_env (click (700, 60) @ [Handle (down (700, 60))]) init)) =
   threads (run_actions sample_env (click (700, 60) @ [Handle (down (700, 60))]) init) \<and>
   download_clicked
     (run_actions sample_env (fetched @ click (800, 60) @ [Handle (down (800, 60))]) init)
     (event (up (800, 60))) \<and>
   threads (handle_event sample_env (up (800, 60))
     (run_actions sample_env (fetched @ click (800, 60) @ [Handle (down (800, 60))]) init)) =
   threads (run_actions sample_env (fetched @ click (800, 60) @ [Handle (down (800, 60))]) init)"
proof -
  let ?sf = "run_actions sample_env (click (700, 60) @ [Handle (down (700, 60))]) init"
  let ?sd = "run_actions sample_env (fetched @ click (800, 60) @ [Handle (down (800, 60))]) init"
  have f: "fetch_clicked ?sf (event (up (700, 60)))" "is_alive ?sf (fetch_thread ?sf)"
    by (simp_all add: system_defs)
  have d: "download_clicked ?sd (event (up (800, 60)))" "is_alive ?sd (download_thread ?sd)"
    by (simp_all add: system_defs fetched_def)
  show ?thesis
    using at_most_one_worker [of Download_worker sample_env cancelled ?sf "up (700, 60)"]
      at_most_one_worker [of Download_worker sample_env cancelled ?sd "up (800, 60)"] f d
    by blast
qed

lemma run_actions_append:
  "run_actions env (xs @ ys) st = run_actions env ys (run_actions env xs st)"
  by (simp add: run_actions_def)

lemma fetched_run: "run_actions sample_env fetched init = fetched_state"
  by (simp add: system_defs fetched_def fetched_state_def clip_video_def format_duration_def
      format_02d_def str_int_def str_nat.simps)

lemmas eval_defs = system_defs fetched_state_def clip_video_def download_videos_def
  ydl_download_def progress_line_def str_nat.simps

lemma downloading_run: "run_actions sample_env downloading init = downloading_state"
  by (simp only: downloading_def run_actions_append fetched_run)
     (simp add: eval_defs downloading_state_def)

lemma cancelled_run:
  "run_actions sample_env cancelled init = downloading_state\<lparr>cancel_download := True\<rparr>"
  by (simp only: cancelled_def run_actions_append downloading_run)
     (simp add: eval_defs downloading_state_def)

lemma in_progress_run:
  "run_actions sample_env in_progress init =
     downloading_state
       \<lparr>message_queue := [Progress ''Downloading 1/1: Clip...''],
        threads := [\<lparr>kind = Fetch_worker, tstate = Terminated\<rparr>,
                    \<lparr>kind = Download_worker,
                      tstate = Downloading (clip_video True)
                        (\<lambda>raised. case raised of
                           None \<Rightarrow> download_loop 1 1 []
                         | Some e \<Rightarrow> Put (Status (''Download error: '' @ e))
                                      (Put (Progress []) Return))\<rparr>]\<rparr>"
  by (simp only: in_progress_def run_actions_append downloading_run)
     (simp add: eval_defs downloading_state_def)

lemma restarted_run:
  "run_actions sample_env restarted init =
     downloading_state
       \<lparr>cancel_download := True,
        download_button := \<lparr>pressed = False, enabled = True, hovered = False\<rparr>,
        cancel_button := \<lparr>pressed = False, enabled = False, hovered = False\<rparr>,
        status_text := ''Download cancelled'',
        threads := [\<lparr>kind = Fetch_worker, tstate = Terminated\<rparr>,
                    \<lparr>kind = Download_worker, tstate = Terminated\<rparr>]\<rparr>"
  by (simp only: restarted_def run_actions_append cancelled_run)
     (simp add: eval_defs downloading_state_def)

lemma handle_event_nth:
  "tid < length (threads st) \<Longrightarrow> threads (handle_event env e st) ! tid = threads st ! tid"
  by (simp add: handle_event_threads nth_append)

lemma handle_event_length: "length (threads st) \<le> length (threads (handle_event env e st))"
  by (simp add: handle_event_threads)

lemma stopping_handle_event:
  assumes "stopping tid st"
  shows "stopping tid (handle_event env e st)"
proof -
  have lt: "tid < length (threads st)" using assms by (simp add: stopping_def)
  have lt': "tid < length (threads (handle_event env e st))"
    using lt handle_event_length [of st env e] by simp
  show ?thesis
  proof (cases "cancel_download st \<and> download_thread st = Some tid \<and>
      (\<exists>p. tstate (threads st ! tid) = Running p \<and> before_item p)")
    case True
    then have "alive st tid" using lt by (auto simp: alive_iff)
    then have "\<not> download_spawns e st" using True by (simp add: download_spawns_def is_alive_def)
    then show ?thesis
      using True lt lt'
      by (simp add: stopping_def handle_event_nth handle_event_download)
  next
    case False
    then show ?thesis
      using assms lt lt' by (auto simp: stopping_def handle_event_nth)
  qed
qed

lemma stopping_update: "stopping tid st \<Longrightarrow> stopping tid (update st)"
  by (simp add: stopping_def update_frame)

lemma thread_step_other:
  "t \<noteq> tid \<Longrightarrow> stopping tid st \<Longrightarrow> stopping tid (thread_step env t st)"
  by (simp add: stopping_def thread_step_frame)

lemma before_item_step:
  assumes "tid < length (threads st)" and "tstate (threads st ! tid) = Running p"
    and "before_item p" and "cancel_download st"
  shows "downloaded (thread_step env tid st) = downloaded st \<and>
         cancel_download (thread_step env tid st) \<and>
         ((\<exists>q. tstate (threads (thread_step env tid st) ! tid) = Running q \<and> before_item q) \<or>
          (\<exists>m. tstate (threads (thread_step env tid st) ! tid) = Running (Put m Return)) \<or>
          tstate (threads (thread_step env tid st) ! tid) = Running Return)"
proof -
  consider a where "p = Get_list a download_videos" | vs where "p = download_videos vs"
    | i n where "p = download_loop i n []" | i n v rest where "p = download_loop i n (v # rest)"
    using assms(3) unfolding before_item_def by (metis list.exhaust)
  then show ?thesis
  proof cases
    case 1
    have "before_item (download_videos (deref st a))" by (auto simp: before_item_def)
    then show ?thesis
      using assms(1,2,4) 1 by (simp add: thread_step_def set_tstate_def)
  next
    case 2
    show ?thesis
    proof (cases "filter selected vs = []")
      case True
      then show ?thesis
        using assms(1,2,4) 2 by (simp add: thread_step_def set_tstate_def download_videos_def)
    next
      case False
      have "before_item (download_loop 0 (length (filter selected vs)) (filter selected vs))"
        unfolding before_item_def by blast
      then show ?thesis
        using assms(1,2,4) 2 False
        by (simp add: thread_step_def set_tstate_def download_videos_def Let_def)
    qed
  next
    case 3
    then show ?thesis
      using assms(1,2,4) by (simp add: thread_step_def set_tstate_def)
  next
    case 4
    then show ?thesis
      using assms(1,2,4) by (simp add: thread_step_def set_tstate_def)
  qed
qed

lemma thread_step_self:
  assumes "stopping tid st"
  shows "stopping tid (thread_step env tid st) \<and>
         downloaded (thread_step env tid st) = downloaded st"
proof -
  have lt: "tid < length (threads st)" using assms by (simp add: stopping_def)
  show ?thesis
  proof (cases "cancel_download st \<and> download_thread st = Some tid \<and>
      (\<exists>p. tstate (threads st ! tid) = Running p \<and> before_item p)")
    case True
    then obtain p where p: "tstate (threads st ! tid) = Running p" "before_item p" by blast
    show ?thesis
      using before_item_step [OF lt p, of env] True lt
      by (auto simp: stopping_def thread_step_frame)
  next
    case False
    then show ?thesis
      using assms by (auto simp: stopping_def thread_step_def set_tstate_def)
  qed
qed

lemma thread_step_downloaded:
  "\<exists>more. downloaded (thread_step env t st) = downloaded st @ more \<and> (\<forall>d\<in>set more. fst d = t)"
  by (auto simp: thread_step_def set_tstate_def split: tstate.splits proc.splits)

lemma downloads_of_thread_step_other:
  assumes "t \<noteq> tid"
  shows "downloads_of tid (thread_step env t st) = downloads_of tid st"
proof -
  obtain more where m: "downloaded (thread_step env t st) = downloaded st @ more"
      "\<forall>d\<in>set more. fst d = t"
    using thread_step_downloaded by blast
  have "filter (\<lambda>d. fst d = tid) more = []"
    using m(2) assms by (auto simp: filter_empty_conv)
  then show ?thesis by (simp add: downloads_of_def m(1))
qed

lemma stopping_step:
  assumes "stopping tid st"
  shows "stopping tid (step env a st) \<and> downloads_of tid (step env a st) = downloads_of tid st"
proof (cases a)
  case (Handle e)
  then show ?thesis
    using assms by (simp add: stopping_handle_event downloads_of_def handle_event_frame)
next
  case Update
  then show ?thesis using assms by (simp add: stopping_update downloads_of_def update_frame)
next
  case (Step t)
  show ?thesis
  proof (cases "t = tid")
    case True
    then show ?thesis using Step thread_step_self [OF assms, of env] by (simp add: downloads_of_def)
  next
    case False
    then show ?thesis
      using Step assms by (simp add: thread_step_other downloads_of_thread_step_other)
  qed
qed

lemma stopping_run:
  assumes "stopping tid st"
  shows "stopping tid (run_actions env acts st) \<and>
         downloads_of tid (run_actions env acts st) = downloads_of tid st"
proof (induction acts rule: rev_induct)
  case Nil
  then show ?case using assms by (simp add: run_actions_def)
next
  case (snoc a acts)
  then show ?case using stopping_step [of tid "run_actions env acts st" env a]
    by (simp add: run_actions_snoc)
qed

lemma step_downloaded: "\<exists>more. downloaded (step env a st) = downloaded st @ more"
proof (cases a)
  case (Step t)
  then show ?thesis using thread_step_downloaded [of env t st] by auto
qed (simp_all add: handle_event_frame update_frame)

lemma run_downloaded: "\<exists>more. downloaded (run_actions env acts st) = downloaded st @ more"
proof (induction acts rule: rev_induct)
  case Nil
  then show ?case by (simp add: run_actions_def)
next
  case (snoc a acts)
  then obtain m1 where m1: "downloaded (run_actions env acts st) = downloaded st @ m1" by blast
  obtain m2 where "downloaded (step env a (run_actions env acts st)) =
      downloaded (run_actions env acts st) @ m2"
    using step_downloaded by blast
  then show ?case by (simp add: run_actions_snoc m1)
qed

lemma flag_cleared_only_by_download:
  assumes "cancel_download st" and "\<not> cancel_download (step env a st)"
  shows "\<exists>e. a = Handle e \<and> download_spawns e st"
proof (cases a)
  case (Handle e)
  then show ?thesis using assms by (auto simp: handle_event_download split: if_splits)
next
  case Update
  then show ?thesis using assms by (simp add: update_frame)
next
  case (Step t)
  then show ?thesis using assms by (simp add: thread_step_frame)
qed

lemma downloading_not_interrupted:
  assumes "tid < length (threads st)" and "tstate (threads st ! tid) = Downloading w k"
  shows "tstate (threads (handle_event env e st) ! tid) = Downloading w k"
    and "tstate (threads (update st) ! tid) = Downloading w k"
    and "t \<noteq> tid \<Longrightarrow> tstate (threads (thread_step env t st) ! tid) = Downloading w k"
    and "tstate (threads (thread_step env tid st) ! tid) = Running (k (ydl_download env w))"
    and "downloaded (thread_step env tid st) =
           downloaded st @ (if ydl_download env w = None then [(tid, w)] else [])"
  using assms
  by (simp_all add: handle_event_nth update_frame thread_step_frame)
     (simp_all add: thread_step_def set_tstate_def)

lemma cancel_three_steps:
  assumes "tid < length (threads st)"
    and "tstate (threads st ! tid) = Running (download_loop i n (v # rest))"
    and "cancel_download st"
  shows "message_queue (run_actions env [Step tid, Step tid, Step tid] st) =
           message_queue st @ [Status ''Download cancelled''] \<and>
         tstate (threads (run_actions env [Step tid, Step tid, Step tid] st) ! tid) = Terminated"
  using assms by (simp add: run_actions_def thread_step_def set_tstate_def)

text \<open>
  Claim C3. Take a state the system reaches in which the flag is set and a download
  worker is at a point before an item: it has not yet read its list, or has just read
  it, or is about to check the flag for the next item. Then, whatever the main loop and
  the threads do afterwards, that worker downloads nothing more, and the downloads made
  so far stay. When an item is left, its next three steps put the status
  \<open>Download cancelled\<close> and terminate it. A download in progress is not affected by
  events or by \<open>update\<close>: its thread stays in the download, and its next step ends
  the download with the outcome of the library, whatever the flag is. The flag, once
  set, is cleared only by an event that starts a download worker, so it stays set while
  the download thread is alive.
\<close>

theorem cancellation_before_item:
  assumes "st = run_actions env pre init"
    and "tid < length (threads st)" and "kind (threads st ! tid) = Download_worker"
    and "tstate (threads st ! tid) = Running p"
    and "p = Get_list b download_videos \<or> p = download_videos vs \<or> p = download_loop i n xs"
    and "cancel_download st"
  shows "downloads_of tid (run_actions env acts st) = downloads_of tid st \<and>
         (\<exists>more. downloaded (run_actions env acts st) = downloaded st @ more) \<and>
         (p = download_loop i n (v # rest) \<longrightarrow>
            message_queue (run_actions env [Step tid, Step tid, Step tid] st) =
              message_queue st @ [Status ''Download cancelled''] \<and>
            tstate (threads (run_actions env [Step tid, Step tid, Step tid] st) ! tid) =
              Terminated) \<and>
         (t < length (threads s) \<and> tstate (threads s ! t) = Downloading w k \<longrightarrow>
            tstate (threads (handle_event env e s) ! t) = Downloading w k \<and>
            tstate (threads (update s) ! t) = Downloading w k \<and>
            tstate (threads (thread_step env t s) ! t) = Running (k (ydl_download env w)) \<and>
            downloaded (thread_step env t s) =
              downloaded s @ (if ydl_download env w = None then [(t, w)] else [])) \<and>
         (cancel_download s \<and> \<not> cancel_download (step env a s) \<longrightarrow>
            (\<exists>e. a = Handle e \<and> download_spawns e s)) \<and>
         (cancel_download s \<and> is_alive s (download_thread s) \<longrightarrow>
            cancel_download (step env a s))"
proof -
  have "refs_ok st" using assms(1) by (simp add: refs_ok_run refs_ok_init)
  moreover have "alive st tid" using assms(2,4) by (simp add: alive_iff)
  ultimately have "download_thread st = Some tid"
    using assms(3) by (simp add: refs_ok_def)
  moreover have "before_item p" using assms(5) unfolding before_item_def by blast
  ultimately have "stopping tid st"
    using assms(2,4,6) by (auto simp: stopping_def)
  then have a: "downloads_of tid (run_actions env acts st) = downloads_of tid st"
    using stopping_run by blast
  have b: "\<exists>more. downloaded (run_actions env acts st) = downloaded st @ more"
    by (rule run_downloaded)
  have c: "message_queue (run_actions env [Step tid, Step tid, Step tid] st) =
        message_queue st @ [Status ''Download cancelled''] \<and>
      tstate (threads (run_actions env [Step tid, Step tid, Step tid] st) ! tid) = Terminated"
    if "p = download_loop i n (v # rest)"
    using cancel_three_steps [OF assms(2) _ assms(6), of i n v rest env] assms(4) that by simp
  have d: "tstate (threads (handle_event env e s) ! t) = Downloading w k \<and>
      tstate (threads (update s) ! t) = Downloading w k \<and>
      tstate (threads (thread_step env t s) ! t) = Running (k (ydl_download env w)) \<and>
      downloaded (thread_step env t s) =
        downloaded s @ (if ydl_download env w = None then [(t, w)] else [])"
    if "t < length (threads s)" "tstate (threads s ! t) = Downloading w k"
    using downloading_not_interrupted [OF that] by simp
  have f: "\<exists>e. a = Handle e \<and> download_spawns e s"
    if "cancel_download s" "\<not> cancel_download (step env a s)"
    using flag_cleared_only_by_download [OF that] .
  have g: "cancel_download (step env a s)"
    if "cancel_download s" "is_alive s (download_thread s)"
    using flag_cleared_only_by_download [OF that(1), of env a] that(2)
    by (auto simp: download_spawns_def)
  show ?thesis using a b c d f g by blast
qed

theorem cancellation_before_item_witness:
  "cancel_download (run_actions sample_env cancelled init) \<and>
   downloads_of 1 (run_actions sample_env [Step 1, Update, Step 1, Step 1, Step 1, Update]
     (run_actions sample_env cancelled init)) = [] \<and>
   message_queue (run_actions sample_env [Step 1, Step 1, Step 1]
     (run_actions sample_env cancelled init)) = [Status ''Download cancelled''] \<and>
   downloaded (thread_step sample_env 1
     (run_actions sample_env (in_progress @ click (900, 60)) init)) = [(1, clip_video True)] \<and>
   cancel_download (run_actions sample_env (restarted @ [Handle (down (800, 60))]) init) \<and>
   \<not> cancel_download (step sample_env (Handle (up (800, 60)))
       (run_actions sample_env (restarted @ [Handle (down (800, 60))]) init)) \<and>
   download_spawns (up (800, 60))
     (run_actions sample_env (restarted @ [Handle (down (800, 60))]) init)"
proof -
  let ?st = "run_actions sample_env cancelled init"
  let ?s = "run_actions sample_env (in_progress @ click (900, 60)) init"
  let ?r = "run_actions sample_env (restarted @ [Handle (down (800, 60))]) init"
  have h: "1 < length (threads ?st)" "kind (threads ?st ! 1) = Download_worker"
    "tstate (threads ?st ! 1) = Running (download_loop 0 1 (clip_video True # []))"
    "cancel_download ?st" "downloads_of 1 ?st = []" "message_queue ?st = []"
    by (simp_all add: cancelled_run downloading_state_def fetched_state_def downloads_of_def)
  have s: "1 < length (threads ?s)" "cancel_download ?s" "downloaded ?s = []"
    by (simp_all only: run_actions_append in_progress_run)
       (simp_all add: eval_defs downloading_state_def)
  have "\<exists>k. tstate (threads ?s ! 1) = Downloading (clip_video True) k"
    by (simp only: run_actions_append in_progress_run)
       (simp add: eval_defs downloading_state_def)
  then obtain k where k: "tstate (threads ?s ! 1) = Downloading (clip_video True) k" ..
  have y: "ydl_download sample_env (clip_video True) = None"
    by (simp add: eval_defs)
  have r: "cancel_download ?r" "\<not> cancel_download (step sample_env (Handle (up (800, 60))) ?r)"
    by (simp_all only: run_actions_append restarted_run)
       (simp_all add: eval_defs downloading_state_def)
  show ?thesis
    using cancellation_before_item [where acts = "[Step 1, Update, Step 1, Step 1, Step 1, Update]"
        and t = 1 and s = ?s and w = "clip_video True" and k = k and e = "up (800, 60)"
        and a = "Handle (up (800, 60))" and i = 0 and n = 1 and xs = "[clip_video True]"
        and v = "clip_video True" and rest = "[]", OF refl h(1,2,3) _ h(4)]
      cancellation_before_item [where s = ?r and a = "Handle (up (800, 60))"
        and i = 0 and n = 1 and xs = "[clip_video True]", OF refl h(1,2,3) _ h(4)]
      h(4,5,6) s k y r
    by auto
qed

lemma none_selected_three_steps:
  assumes "tid < length (threads st)"
    and "tstate (threads st ! tid) = Running (Get_list a download_videos)"
    and "filter selected (deref st a) = []"
  shows "message_queue (run_actions env [Step tid, Step tid, Step tid] st) =
           message_queue st @ [Status ''No videos selected''] \<and>
         tstate (threads (run_actions env [Step tid, Step tid, Step tid] st) ! tid) = Terminated \<and>
         downloaded (run_actions env [Step tid, Step tid, Step tid] st) = downloaded st"
  using assms
  by (simp add: run_actions_def thread_step_def set_tstate_def download_videos_def deref_def)

text \<open>
  Claim C4, as amended. An event on which the Download button reports a click, with a list
  that is not empty and no download thread alive, starts a download worker and clears
  the flag, whatever is selected, and puts no message itself. A worker started on a list
  with no selected item puts exactly the status \<open>No videos selected\<close>, downloads
  nothing and terminates. With an empty list the click starts no thread and puts no
  message.
\<close>

theorem download_without_selection:
  "(download_spawns e st \<longrightarrow>
      threads (handle_event env e st) =
        threads st @ [\<lparr>kind = Download_worker,
                        tstate = Running (Get_list (videos st) download_videos)\<rparr>] \<and>
      download_thread (handle_event env e st) = Some (length (threads st)) \<and>
      \<not> cancel_download (handle_event env e st) \<and>
      message_queue (handle_event env e st) = message_queue st) \<and>
   (tid < length (threads st) \<and>
    tstate (threads st ! tid) = Running (Get_list a download_videos) \<and>
    filter selected (deref st a) = [] \<longrightarrow>
      message_queue (run_actions env [Step tid, Step tid, Step tid] st) =
        message_queue st @ [Status ''No videos selected''] \<and>
      tstate (threads (run_actions env [Step tid, Step tid, Step tid] st) ! tid) = Terminated \<and>
      downloaded (run_actions env [Step tid, Step tid, Step tid] st) = downloaded st) \<and>
   (filter selected vs = [] \<longrightarrow>
      exec env vs (Get_list a download_videos) flags n = ([Status ''No videos selected''], [])) \<and>
   (download_clicked st (event e) \<and> deref st (videos st) = [] \<longrightarrow>
      threads (handle_event env e st) = threads st \<and>
      message_queue (handle_event env e st) = message_queue st)"
proof -
  have sp: "threads (handle_event env e st) =
        threads st @ [\<lparr>kind = Download_worker,
                        tstate = Running (Get_list (videos st) download_videos)\<rparr>] \<and>
      download_thread (handle_event env e st) = Some (length (threads st)) \<and>
      \<not> cancel_download (handle_event env e st) \<and>
      message_queue (handle_event env e st) = message_queue st"
    if "download_spawns e st"
  proof -
    have "\<not> fetch_spawns e st" using that spawns_exclusive by blast
    then show ?thesis
      using that by (simp add: handle_event_threads handle_event_download handle_event_frame)
  qed
  have em: "threads (handle_event env e st) = threads st \<and>
      message_queue (handle_event env e st) = message_queue st"
    if "download_clicked st (event e)" "deref st (videos st) = []"
  proof -
    have "\<not> fetch_spawns e st" "\<not> download_spawns e st"
      using that clicked_exclusive(4) by (auto simp: fetch_spawns_def download_spawns_def)
    then show ?thesis by (simp add: handle_event_threads handle_event_frame)
  qed
  show ?thesis
    using sp em none_selected_three_steps [of tid st a env] exec_none_selected [of vs env a flags n]
    by blast
qed

text \<open>
  Claim C4, as stated, fails on the list with one video that is not selected: the click
  on Download starts a second thread, a download worker that is alive, and it is this
  worker that puts the status.
\<close>

theorem download_without_selection_counterexample:
  "filter selected (deref (run_actions sample_env fetched init)
     (videos (run_actions sample_env fetched init))) = [] \<and>
   length (threads (run_actions sample_env fetched init)) = 1 \<and>
   length (threads (run_actions sample_env (fetched @ click (800, 60)) init)) = 2 \<and>
   kind (threads (run_actions sample_env (fetched @ click (800, 60)) init) ! 1) = Download_worker \<and>
   alive (run_actions sample_env (fetched @ click (800, 60)) init) 1 \<and>
   message_queue (run_actions sample_env (fetched @ click (800, 60)) init) = [] \<and>
   message_queue (run_actions sample_env (fetched @ click (800, 60) @ [Step 1, Step 1, Step 1]) init) =
     [Status ''No videos selected'']"
  by (simp only: run_actions_append fetched_run)
     (simp add: eval_defs)

theorem download_without_selection_witness:
  "download_spawns (up (800, 60)) (run_actions sample_env (fetched @ [Handle (down (800, 60))]) init) \<and>
   length (threads (handle_event sample_env (up (800, 60))
     (run_actions sample_env (fetched @ [Handle (down (800, 60))]) init))) = 2 \<and>
   message_queue (run_actions sample_env [Step 1, Step 1, Step 1]
     (run_actions sample_env (fetched @ click (800, 60)) init)) = [Status ''No videos selected''] \<and>
   exec sample_env [clip_video False] (Get_list 1 download_videos) (\<lambda>n. False) 0 =
     ([Status ''No videos selected''], []) \<and>
   download_clicked (run_actions sample_env [Handle (down (800, 60))] init) (event (up (800, 60))) \<and>
   threads (handle_event sample_env (up (800, 60))
     (run_actions sample_env [Handle (down (800, 60))] init)) = []"
proof -
  let ?p = "run_actions sample_env (fetched @ [Handle (down (800, 60))]) init"
  let ?q = "run_actions sample_env (fetched @ click (800, 60)) init"
  let ?z = "run_actions sample_env [Handle (down (800, 60))] init"
  have p: "download_spawns (up (800, 60)) ?p" "length (threads ?p) = 1"
    by (simp_all only: run_actions_append fetched_run)
       (simp_all add: eval_defs download_spawns_def)
  have q: "1 < length (threads ?q)" "tstate (threads ?q ! 1) = Running (Get_list 1 download_videos)"
    "filter selected (deref ?q 1) = []" "message_queue ?q = []"
    by (simp_all only: run_actions_append fetched_run)
       (simp_all add: eval_defs)
  have v: "filter selected [clip_video False] = []"
    by (simp add: clip_video_def)
  have z: "download_clicked ?z (event (up (800, 60)))" "deref ?z (videos ?z) = []" "threads ?z = []"
    by (simp_all add: eval_defs)
  show ?thesis
    using download_without_selection [where e = "up (800, 60)" and st = ?p and env = sample_env]
      download_without_selection [where tid = 1 and st = ?q and a = 1 and env = sample_env
        and vs = "[clip_video False]" and flags = "\<lambda>n. False" and n = 0]
      download_without_selection [where e = "up (800, 60)" and st = ?z and env = sample_env]
      p q v z
    by simp
qed

end
